theory Spec2Isabelle
  imports Complex_Main "HOL-Library.Sublist"
begin

section \<open>Data model\<close>

text \<open>
  A JavaScript number-valued property as the code can meet it: absent (\<open>undefined\<close>),
  \<open>null\<close>, \<open>NaN\<close>, or a finite number.  Finite numbers are modelled as reals: IEEE
  rounding and the infinities are outside the model.
\<close>

datatype jsnum = Undefined | Null | NaN | Num real

text \<open>\<open>v || d\<close> on a number-valued property: every falsy value (\<open>undefined\<close>, \<open>null\<close>,
  \<open>NaN\<close>, \<open>0\<close>) gives the default.\<close>

fun or_default :: "jsnum \<Rightarrow> real \<Rightarrow> real" where
  "or_default (Num x) d = (if x = 0 then d else x)"
| "or_default Undefined d = d"
| "or_default Null d = d"
| "or_default NaN d = d"

text \<open>The numeric properties of a track row that the ranking engine and the visualizer read.\<close>

datatype field =
  Danceability | Energy | Valence | Tempo | tempoNorm | Acousticness
  | loudnessNorm | Liveness | Instrumentalness

record track =
  Track_Name :: "string option"
  Artist_Names :: "string option"
  Album_Name :: "string option"
  num :: "field \<Rightarrow> jsnum"

text \<open>\<open>params\<close>: the query text (absent: the default \<open>''''\<close>) and the sliders object
  (absent or \<open>null\<close>: \<open>None\<close>), an object with the keys
  \<open>Danceability, Energy, Valence, Tempo, Acousticness\<close>.\<close>

type_synonym sliders = "field \<Rightarrow> jsnum"

record params =
  query :: "string option"
  sliders :: "sliders option"

record scored =
  track :: track
  score :: real
  reasons :: "string list"

definition FEATURE_KEYS :: "field list" where
  "FEATURE_KEYS = [Danceability, Energy, Valence, tempoNorm, Acousticness]"

definition SLIDER_KEYS :: "field list" where
  "SLIDER_KEYS = [Danceability, Energy, Valence, Tempo, Acousticness]"

section \<open>Strings\<close>

text \<open>Strings are ASCII strings.  \<open>str || ''''\<close> on a string property that may be absent.\<close>

fun or_empty :: "string option \<Rightarrow> string" where
  "or_empty None = []"
| "or_empty (Some s) = s"

definition isspace :: "char \<Rightarrow> bool" where
  "isspace c = (c \<in> set [CHR 0x09, CHR 0x0A, CHR 0x0B, CHR 0x0C, CHR 0x0D, CHR 0x20])"

definition lower_char :: "char \<Rightarrow> char" where
  "lower_char c =
     (case map_of (zip ''ABCDEFGHIJKLMNOPQRSTUVWXYZ'' ''abcdefghijklmnopqrstuvwxyz'') c of
        None \<Rightarrow> c | Some d \<Rightarrow> d)"

definition toLowerCase :: "string \<Rightarrow> string" where
  "toLowerCase s = map lower_char s"

definition trim :: "string \<Rightarrow> string" where
  "trim s = rev (dropWhile isspace (rev (dropWhile isspace s)))"

fun startsWith :: "string \<Rightarrow> string \<Rightarrow> bool" where
  "startsWith s [] = True"
| "startsWith [] (q # qs) = False"
| "startsWith (c # cs) (q # qs) = (c = q \<and> startsWith cs qs)"

fun includes_str :: "string \<Rightarrow> string \<Rightarrow> bool" where
  "includes_str [] q = (q = [])"
| "includes_str (c # cs) q = (startsWith (c # cs) q \<or> includes_str cs q)"

text \<open>\<open>s.split(/\s+/)\<close>: the pieces between maximal runs of whitespace; a leading or
  trailing run leaves an empty piece, and the empty string splits into one empty piece.\<close>

function split_ws :: "string \<Rightarrow> string \<Rightarrow> string list" where
  "split_ws cur [] = [rev cur]"
| "split_ws cur (c # cs) =
     (if isspace c then rev cur # split_ws [] (dropWhile isspace cs)
      else split_ws (c # cur) cs)"
  by pat_completeness auto
termination
  by (relation "measure (\<lambda>(cur, s). length s)")
     (auto simp: length_dropWhile_le less_Suc_eq_le)

definition split_whitespace :: "string \<Rightarrow> string list" where
  "split_whitespace s = split_ws [] s"

section \<open>Ranking engine: text score\<close>

definition computeTextScore :: "track \<Rightarrow> string \<Rightarrow> real" where
  "computeTextScore t queryLower =
     (let name = toLowerCase (or_empty (Track_Name t));
          artist = toLowerCase (or_empty (Artist_Names t));
          album = toLowerCase (or_empty (Album_Name t));
          score = 0;
          score = (if name = queryLower then score + 1.0
                   else if startsWith name queryLower then score + 0.8
                   else if includes_str name queryLower then score + 0.6
                   else score);
          score = (if artist = queryLower then score + 0.9
                   else if includes_str artist queryLower then score + 0.5
                   else score);
          score = (if includes_str album queryLower then score + 0.2 else score);
          words = split_whitespace queryLower;
          score = (if length words > 1 then
                     let matchedWords =
                           filter (\<lambda>w. includes_str name w \<or> includes_str artist w) words
                     in score + (real (length matchedWords) / real (length words)) * 0.3
                   else score)
      in min score 1)"

text \<open>The text score as search computes it for one track (lines 31 to 38): zero unless
  the trimmed query is non-empty.\<close>

definition get_query :: "params \<Rightarrow> string" where
  "get_query p = (case query p of None \<Rightarrow> [] | Some q \<Rightarrow> q)"

definition hasQuery :: "params \<Rightarrow> bool" where
  "hasQuery p = (length (trim (get_query p)) > 0)"

definition textScoreOf :: "params \<Rightarrow> track \<Rightarrow> real" where
  "textScoreOf p t =
     (let textScore = 0
      in if hasQuery p then computeTextScore t (toLowerCase (trim (get_query p)))
         else textScore)"

section \<open>Ranking engine: feature score\<close>

text \<open>\<open>Object.values(sliders).some(v => v !== null)\<close>, guarded by \<open>sliders &&\<close>.\<close>

definition hasSliders :: "params \<Rightarrow> bool" where
  "hasSliders p =
     (case sliders p of None \<Rightarrow> False
      | Some s \<Rightarrow> list_ex (\<lambda>v. v \<noteq> Null) (map s SLIDER_KEYS))"

text \<open>\<open>Math.max(0, Math.min(1, (sliders.Tempo - 40) / 180))\<close>: \<open>null\<close> coerces to 0 in the
  subtraction, \<open>undefined\<close> and \<open>NaN\<close> make the whole expression \<open>NaN\<close>.\<close>

fun normalizeTempo :: "jsnum \<Rightarrow> jsnum" where
  "normalizeTempo (Num x) = Num (max 0 (min 1 ((x - 40) / 180)))"
| "normalizeTempo Null = Num (max 0 (min 1 ((0 - 40) / 180)))"
| "normalizeTempo Undefined = NaN"
| "normalizeTempo NaN = NaN"

definition normalizeSliders :: "sliders \<Rightarrow> field \<Rightarrow> jsnum" where
  "normalizeSliders s =
     (\<lambda>k. Undefined)
       (Danceability := s Danceability,
        Energy := s Energy,
        Valence := s Valence,
        tempoNorm := normalizeTempo (s Tempo),
        Acousticness := s Acousticness)"

definition normalizedSliders :: "params \<Rightarrow> (field \<Rightarrow> jsnum) option" where
  "normalizedSliders p =
     (case sliders p of None \<Rightarrow> None
      | Some s \<Rightarrow> if hasSliders p then Some (normalizeSliders s) else None)"

definition euclideanDistance :: "track \<Rightarrow> (field \<Rightarrow> jsnum) \<Rightarrow> real" where
  "euclideanDistance t target =
     sqrt (fold (\<lambda>key sum.
                   let diff = or_default (num t key) 0 - or_default (target key) 0
                   in sum + diff * diff)
             FEATURE_KEYS 0)"

text \<open>The feature score as search computes it for one track (lines 32 and 41 to 46).\<close>

definition featureScoreOf :: "params \<Rightarrow> track \<Rightarrow> real" where
  "featureScoreOf p t =
     (let featureScore = 0
      in case normalizedSliders p of
           None \<Rightarrow> featureScore
         | Some target \<Rightarrow>
             let dist = euclideanDistance t target;
                 featureScore = 1 - dist;
                 maxDist = sqrt (real (length FEATURE_KEYS));
                 featureScore = 1 - (dist / maxDist)
             in featureScore)"

section \<open>Ranking engine: numbers as text, sorting, slicing\<close>

definition digit_char :: "nat \<Rightarrow> char" where
  "digit_char d = ''0123456789'' ! d"

function digits :: "nat \<Rightarrow> string" where
  "digits n = (if n < 10 then [digit_char n] else digits (n div 10) @ [digit_char (n mod 10)])"
  by pat_completeness auto
termination
  by (relation "measure id") auto

declare digits.simps [simp del]

definition show_int :: "int \<Rightarrow> string" where
  "show_int i = (if i < 0 then ''-'' @ digits (nat (- i)) else digits (nat i))"

text \<open>\<open>x.toFixed(0)\<close>: the sign is split off, then the nearest integer is taken, the larger
  one at a tie (numbers below \<open>10^21\<close>, which print without an exponent).\<close>

definition toFixed0 :: "real \<Rightarrow> string" where
  "toFixed0 x =
     (if x < 0 then ''-'' @ digits (nat \<lfloor>- x + 1 / 2\<rfloor>) else digits (nat \<lfloor>x + 1 / 2\<rfloor>))"

text \<open>\<open>`${Math.round(v)}`\<close>: \<open>Math.round\<close> rounds to the nearest integer, ties towards
  plus infinity.\<close>

fun round_to_string :: "jsnum \<Rightarrow> string" where
  "round_to_string (Num x) = show_int \<lfloor>x + 1 / 2\<rfloor>"
| "round_to_string Null = ''0''"
| "round_to_string Undefined = ''NaN''"
| "round_to_string NaN = ''NaN''"

text \<open>\<open>Array.prototype.sort\<close> with a comparator: the sort is stable, so the result is the
  one of an insertion sort in which an element goes ahead of the first element after which
  the comparator does not put it.\<close>

fun insert_by :: "('a \<Rightarrow> 'a \<Rightarrow> real) \<Rightarrow> 'a \<Rightarrow> 'a list \<Rightarrow> 'a list" where
  "insert_by cmp x [] = [x]"
| "insert_by cmp x (y # ys) =
     (if cmp x y \<le> 0 then x # y # ys else y # insert_by cmp x ys)"

fun sort_by :: "('a \<Rightarrow> 'a \<Rightarrow> real) \<Rightarrow> 'a list \<Rightarrow> 'a list" where
  "sort_by cmp [] = []"
| "sort_by cmp (x # xs) = insert_by cmp x (sort_by cmp xs)"

text \<open>\<open>xs.slice(0, limit)\<close>: a negative end counts from the end of the array.\<close>

definition slice0 :: "'a list \<Rightarrow> int \<Rightarrow> 'a list" where
  "slice0 xs limit =
     (if limit < 0 then take (nat (int (length xs) + limit)) xs else take (nat limit) xs)"

fun join :: "string \<Rightarrow> string list \<Rightarrow> string" where
  "join sep [] = []"
| "join sep [x] = x"
| "join sep (x # y # ys) = x @ sep @ join sep (y # ys)"

section \<open>Ranking engine: reasons\<close>

definition dquote :: string where
  "dquote = [CHR 0x22]"

text \<open>The dash of the slider reason, U+2014, as its UTF-8 bytes.\<close>

definition em_dash :: string where
  "em_dash = [CHR 0xE2, CHR 0x80, CHR 0x94]"

definition buildTextReason :: "track \<Rightarrow> string \<Rightarrow> string" where
  "buildTextReason t q =
     (let name = or_empty (Track_Name t);
          artist = or_empty (Artist_Names t)
      in if includes_str (toLowerCase name) (toLowerCase q)
         then ''Matched your search '' @ dquote @ q @ dquote @ '' in the track name''
         else if includes_str (toLowerCase artist) (toLowerCase q)
         then ''Found '' @ dquote @ q @ dquote @ '' among the artists''
         else ''Partial match for '' @ dquote @ q @ dquote)"

record feature_diff =
  key :: field
  diff :: real
  trackVal :: real
  targetVal :: real

fun key_name :: "field \<Rightarrow> string" where
  "key_name Danceability = ''Danceability''"
| "key_name Energy = ''Energy''"
| "key_name Valence = ''Valence''"
| "key_name Tempo = ''Tempo''"
| "key_name tempoNorm = ''tempoNorm''"
| "key_name Acousticness = ''Acousticness''"
| "key_name loudnessNorm = ''loudnessNorm''"
| "key_name Liveness = ''Liveness''"
| "key_name Instrumentalness = ''Instrumentalness''"

definition feature_diffs :: "track \<Rightarrow> (field \<Rightarrow> jsnum) \<Rightarrow> feature_diff list" where
  "feature_diffs t ns =
     map (\<lambda>k. \<lparr>key = k,
               diff = \<bar>or_default (num t k) 0 - or_default (ns k) 0\<bar>,
               trackVal = or_default (num t k) 0,
               targetVal = or_default (ns k) 0\<rparr>)
       FEATURE_KEYS"

text \<open>\<open>diffs[0]\<close> is read with \<open>hd\<close>: the sorted list has the five entries of
  \<open>FEATURE_KEYS\<close> (lemma \<open>length_sorted_diffs\<close>).\<close>

definition best_diff :: "track \<Rightarrow> (field \<Rightarrow> jsnum) \<Rightarrow> feature_diff" where
  "best_diff t ns = hd (sort_by (\<lambda>a b. diff a - diff b) (feature_diffs t ns))"

definition buildSliderReason :: "track \<Rightarrow> (field \<Rightarrow> jsnum) \<Rightarrow> sliders \<Rightarrow> string" where
  "buildSliderReason t ns rawSliders =
     (let best = best_diff t ns;
          displayName = (if key best = tempoNorm then ''Tempo'' else key_name (key best));
          trackDisplay = (if key best = tempoNorm
                          then round_to_string (num t Tempo) @ '' BPM''
                          else toFixed0 (trackVal best * 100) @ ''%'')
      in ''Closest on '' @ displayName @ '' ('' @ trackDisplay @ '') '' @ em_dash
         @ '' strong alignment with your slider settings'')"

definition buildExplanation :: "scored \<Rightarrow> params \<Rightarrow> string" where
  "buildExplanation result p =
     (let parts = reasons result;
          scorePercent = toFixed0 (score result * 100);
          intro = ''Match confidence: '' @ scorePercent @ ''%. ''
      in intro @ join ''. '' parts @ ''.'')"

section \<open>Ranking engine: search\<close>

text \<open>The callback of \<open>tracks.map\<close> (lines 30 to 67).  The slider reason is pushed
  under \<open>if (hasSliders)\<close>, which holds exactly when \<open>normalizedSliders\<close> is not null;
  the model reads both objects in that branch.\<close>

definition scoreTrack :: "params \<Rightarrow> track \<Rightarrow> scored" where
  "scoreTrack p t =
     (let textScore = textScoreOf p t;
          featureScore = featureScoreOf p t;
          reasons = [];
          score = (if hasQuery p \<and> hasSliders p then textScore * 0.55 + featureScore * 0.45
                   else if hasQuery p then textScore
                   else featureScore);
          reasons = (if hasQuery p \<and> textScore > 0
                     then reasons @ [buildTextReason t (trim (get_query p))] else reasons);
          reasons = (case (normalizedSliders p, sliders p) of
                       (Some ns, Some raw) \<Rightarrow> reasons @ [buildSliderReason t ns raw]
                     | _ \<Rightarrow> reasons)
      in \<lparr>track = t, score = score, reasons = reasons\<rparr>)"

text \<open>\<open>search\<close>.  The limit is an integer; a caller that leaves it out gets the
  default 5.  The steps are those of the source: the early return, the map, the filter of
  a text search, the sort by descending score, the slice.\<close>

definition search :: "track list \<Rightarrow> params \<Rightarrow> int \<Rightarrow> scored list" where
  "search tracks p limit =
     (if \<not> hasQuery p \<and> \<not> hasSliders p then []
      else
        let scored = map (scoreTrack p) tracks;
            filtered = (if hasQuery p then filter (\<lambda>s. score s > 0) scored else scored);
            sorted = sort_by (\<lambda>a b. score b - score a) filtered
        in slice0 sorted limit)"

section \<open>Feature visualizer: state\<close>

text \<open>The eight derived feature values of \<open>features\<close> and \<open>targetFeatures\<close>, keyed as the
  object literal in \<open>setTrack\<close> lists them.\<close>

datatype vkey =
  valence | energy | danceability | tempo | loudness | acousticness | liveness | instrumentalness

type_synonym feats = "vkey \<Rightarrow> real"

definition VKEYS :: "vkey list" where
  "VKEYS = [valence, energy, danceability, tempo, loudness, acousticness, liveness,
            instrumentalness]"

record particle =
  px :: real
  py :: real
  vx :: real
  vy :: real
  psize :: real
  life :: real
  phase :: real
  organic :: bool

text \<open>The calls on the drawing context that take sizes.  Colours are not modelled.
  A diamond is the closed path of four line segments around \<open>(x, y)\<close>, rotated.\<close>

datatype draw_call =
  FillRect real real real real
  | Ellipse real real real real real
  | Diamond real real real real
  | RoundRect real real real real real
  | Arc real real real
  | Line real real real real

text \<open>The drawing surface refuses a negative radius: \<open>ellipse\<close> and \<open>arc\<close> throw an
  IndexSizeError, \<open>roundRect\<close> a RangeError.\<close>

fun valid_call :: "draw_call \<Rightarrow> bool" where
  "valid_call (Ellipse x y rx ry rot) = (0 \<le> rx \<and> 0 \<le> ry)"
| "valid_call (RoundRect x y w h r) = (0 \<le> r)"
| "valid_call (Arc x y r) = (0 \<le> r)"
| "valid_call (FillRect x y w h) = True"
| "valid_call (Diamond x y s rot) = True"
| "valid_call (Line x1 y1 x2 y2) = True"

text \<open>The visualizer object.  \<open>Math.random\<close> is a stream \<open>randoms\<close> of which \<open>drawn\<close>
  values are used up; \<open>animId\<close> is the handle of the pending frame request, if any;
  \<open>canvas\<close> is the log of the calls made on the drawing context.\<close>

record visualizer =
  width :: real
  height :: real
  particles :: "particle list"
  features :: "feats option"
  targetFeatures :: "feats option"
  animId :: "nat option"
  time :: real
  randoms :: "nat \<Rightarrow> real"
  drawn :: nat
  frames :: nat
  canvas :: "draw_call list"

definition new_visualizer :: "real \<Rightarrow> real \<Rightarrow> (nat \<Rightarrow> real) \<Rightarrow> visualizer" where
  "new_visualizer w h rnd =
     \<lparr>width = w, height = h, particles = [], features = None, targetFeatures = None,
      animId = None, time = 0, randoms = rnd, drawn = 0, frames = 0, canvas = []\<rparr>"

text \<open>\<open>x || d\<close> on a number that is not \<open>NaN\<close>.\<close>

definition or_real :: "real \<Rightarrow> real \<Rightarrow> real" where
  "or_real x d = (if x = 0 then d else x)"

section \<open>Feature visualizer: particles\<close>

text \<open>\<open>createParticle\<close>: \<open>f\<close> is \<open>targetFeatures || features || {}\<close>, and the eight
  calls of \<open>Math.random\<close> are made in the order of the object literal.\<close>

definition createParticle :: "visualizer \<Rightarrow> nat \<Rightarrow> particle" where
  "createParticle v n =
     (let f = (case targetFeatures v of Some tf \<Rightarrow> Some tf | None \<Rightarrow> features v);
          f_loudness = (case f of None \<Rightarrow> 0.5 | Some g \<Rightarrow> or_real (g loudness) 0.5);
          f_acousticness = (case f of None \<Rightarrow> 0.3 | Some g \<Rightarrow> or_real (g acousticness) 0.3)
      in \<lparr>px = randoms v n * width v,
          py = randoms v (n + 1) * height v,
          vx = (randoms v (n + 2) - 0.5) * 2,
          vy = (randoms v (n + 3) - 0.5) * 2,
          psize = 1.5 + randoms v (n + 4) * 3 * (0.5 + f_loudness),
          life = randoms v (n + 5),
          phase = randoms v (n + 6) * pi * 2,
          organic = (randoms v (n + 7) < f_acousticness)\<rparr>)"

fun create_loop :: "visualizer \<Rightarrow> nat \<Rightarrow> nat \<Rightarrow> particle list" where
  "create_loop v 0 n = []"
| "create_loop v (Suc c) n = createParticle v n # create_loop v c (n + 8)"

text \<open>\<open>initParticles\<close> reads \<open>this.targetFeatures.danceability\<close>; \<open>setTrack\<close>, its only
  caller, has assigned \<open>targetFeatures\<close> before.  A count that is not positive runs the
  loop zero times.\<close>

definition initParticles :: "visualizer \<Rightarrow> visualizer" where
  "initParticles v =
     (case targetFeatures v of
        None \<Rightarrow> v
      | Some tf \<Rightarrow>
          let count = \<lfloor>80 + or_real (tf danceability) 0 * 180\<rfloor>
          in v\<lparr>particles := create_loop v (nat count) (drawn v),
               drawn := drawn v + 8 * nat count\<rparr>)"

section \<open>Feature visualizer: the tick\<close>

definition lerpFeatures :: "visualizer \<Rightarrow> visualizer" where
  "lerpFeatures v =
     (case (targetFeatures v, features v) of
        (Some tf, Some f) \<Rightarrow>
          let rate = 0.03
          in v\<lparr>features :=
                 Some (fold (\<lambda>key f. f(key := f key + (tf key - f key) * rate)) VKEYS f)\<rparr>
      | _ \<Rightarrow> v)"

definition getHue :: "feats \<Rightarrow> real" where
  "getHue f = 240 - f valence * 210"

text \<open>The shape of one particle (lines 146 to 175).\<close>

definition draw_shape :: "feats \<Rightarrow> real \<Rightarrow> particle \<Rightarrow> real \<Rightarrow> draw_call" where
  "draw_shape f tm p sz =
     (if organic p then
        let r = sz;
            wobble = sin (tm * 2 + phase p) * sz * 0.2 * f acousticness
        in Ellipse (px p) (py p) (r + wobble) (r - wobble * 0.5) (phase p)
      else if f instrumentalness > 0.3 then
        Diamond (px p) (py p) sz (tm * 0.5 + phase p)
      else
        let half = sz
        in RoundRect (px p - half) (py p - half) (half * 2) (half * 2) (sz * 0.3))"

text \<open>The body of the loop over the particles (lines 122 to 188): the particle moves, with
  two calls of \<open>Math.random\<close>, wraps around the edges and is drawn.\<close>

definition move_particle :: "visualizer \<Rightarrow> feats \<Rightarrow> nat \<Rightarrow> particle \<Rightarrow> particle" where
  "move_particle v f n p =
     (let w = width v; h = height v;
          speed = 0.3 + f energy * 3;
          pulseFreq = 0.5 + f tempo * 4;
          jitter = f liveness * 3;
          dx = cos (phase p + time v * pulseFreq * 0.3) * speed;
          dy = sin (phase p + time v * pulseFreq * 0.2) * speed;
          x = px p + (vx p * speed + dx * 0.3 + (randoms v n - 0.5) * jitter);
          y = py p + (vy p * speed + dy * 0.3 + (randoms v (n + 1) - 0.5) * jitter);
          x = (if x < - 10 then w + 10 else x);
          x = (if x > w + 10 then - 10 else x);
          y = (if y < - 10 then h + 10 else y);
          y = (if y > h + 10 then - 10 else y)
      in p\<lparr>px := x, py := y\<rparr>)"

definition draw_particle :: "visualizer \<Rightarrow> feats \<Rightarrow> particle \<Rightarrow> draw_call list" where
  "draw_particle v f p =
     (let pulseFreq = 0.5 + f tempo * 4;
          pulse = sin (time v * pulseFreq) * 0.5 + 0.5;
          sz = psize p * (0.8 + pulse * 0.4 * f danceability)
      in draw_shape f (time v) p sz
         # (if f energy > 0.6 then [Arc (px p) (py p) (sz * 0.5)] else []))"

fun animate_particles ::
  "visualizer \<Rightarrow> feats \<Rightarrow> nat \<Rightarrow> particle list \<Rightarrow> particle list \<times> draw_call list" where
  "animate_particles v f n [] = ([], [])"
| "animate_particles v f n (p # ps) =
     (let p' = move_particle v f n p;
          (ps', calls) = animate_particles v f (n + 2) ps
      in (p' # ps', draw_particle v f p' @ calls))"

text \<open>The connecting lines (lines 192 to 211): every third particle, each pair once.\<close>

function every_third :: "'a list \<Rightarrow> 'a list" where
  "every_third [] = []"
| "every_third (p # ps) = p # every_third (drop 2 ps)"
  by pat_completeness auto
termination
  by (relation "measure length") auto

fun connect :: "real \<Rightarrow> particle list \<Rightarrow> draw_call list" where
  "connect connectDist [] = []"
| "connect connectDist (a # bs) =
     map (\<lambda>b. Line (px a) (py a) (px b) (py b))
       (filter (\<lambda>b. sqrt ((px a - px b) * (px a - px b) + (py a - py b) * (py a - py b))
                      < connectDist) bs)
     @ connect connectDist bs"

text \<open>The drawing part of \<open>animate\<close> (lines 107 to 211), reached when there are
  features.\<close>

definition draw_frame :: "visualizer \<Rightarrow> feats \<Rightarrow> visualizer" where
  "draw_frame v f =
     (let background = FillRect 0 0 (width v) (height v);
          (ps, calls) = animate_particles v f (drawn v) (particles v);
          lines = (if f danceability > 0.5
                   then connect (60 + f danceability * 40) (every_third ps) else [])
      in v\<lparr>particles := ps,
           drawn := drawn v + 2 * length (particles v),
           canvas := canvas v @ background # calls @ lines\<rparr>)"

text \<open>\<open>animate\<close>: a new frame is requested, the time advances, the features move, and,
  when there are features, the frame is drawn.\<close>

definition animate :: "visualizer \<Rightarrow> visualizer" where
  "animate v0 =
     (let v = v0\<lparr>animId := Some (Suc (frames v0)), frames := Suc (frames v0)\<rparr>;
          v = v\<lparr>time := time v + 0.016\<rparr>;
          v = lerpFeatures v
      in case features v of
           None \<Rightarrow> v
         | Some f \<Rightarrow> draw_frame v f)"

section \<open>Feature visualizer: the operations\<close>

text \<open>The \<open>targetFeatures\<close> that \<open>setTrack\<close> derives from a track.\<close>

definition track_features :: "track \<Rightarrow> feats" where
  "track_features t =
     (\<lambda>k. case k of
        valence \<Rightarrow> or_default (num t Valence) 0
      | energy \<Rightarrow> or_default (num t Energy) 0
      | danceability \<Rightarrow> or_default (num t Danceability) 0
      | tempo \<Rightarrow> or_default (num t tempoNorm) 0
      | loudness \<Rightarrow> or_default (num t loudnessNorm) 0
      | acousticness \<Rightarrow> or_default (num t Acousticness) 0
      | liveness \<Rightarrow> or_default (num t Liveness) 0
      | instrumentalness \<Rightarrow> or_default (num t Instrumentalness) 0)"

definition setTrack :: "visualizer \<Rightarrow> track \<Rightarrow> visualizer" where
  "setTrack v0 t =
     (let v = v0\<lparr>targetFeatures := Some (track_features t)\<rparr>;
          v = (if features v = None then v\<lparr>features := targetFeatures v\<rparr> else v);
          v = initParticles v
      in if animId v = None then animate v else v)"

text \<open>The frame callback: it runs \<open>animate\<close> while a request is pending.\<close>

definition tick :: "visualizer \<Rightarrow> visualizer" where
  "tick v = (if animId v = None then v else animate v)"

definition destroy :: "visualizer \<Rightarrow> visualizer" where
  "destroy v = (if animId v \<noteq> None then v\<lparr>animId := None\<rparr> else v)"

datatype event = SetTrack track | Tick | Destroy

fun handle :: "visualizer \<Rightarrow> event \<Rightarrow> visualizer" where
  "handle v (SetTrack t) = setTrack v t"
| "handle v Tick = tick v"
| "handle v Destroy = destroy v"

definition run :: "visualizer \<Rightarrow> event list \<Rightarrow> visualizer" where
  "run v es = fold (\<lambda>e v. handle v e) es v"

text \<open>A new visualizer on which \<open>setTrack(a)\<close> and then at once \<open>setTrack(b)\<close> are called.\<close>

definition after_two_tracks ::
  "real \<Rightarrow> real \<Rightarrow> (nat \<Rightarrow> real) \<Rightarrow> track \<Rightarrow> track \<Rightarrow> visualizer" where
  "after_two_tracks w h rnd a b = setTrack (setTrack (new_visualizer w h rnd) a) b"

text \<open>The particles after \<open>setTrack\<close>, as they are created and before the first frame
  moves them.\<close>

definition fresh_particles :: "visualizer \<Rightarrow> track \<Rightarrow> particle list" where
  "fresh_particles v t =
     create_loop
       (v\<lparr>targetFeatures := Some (track_features t),
          features := (if features v = None then Some (track_features t) else features v)\<rparr>)
       (nat \<lfloor>80 + track_features t danceability * 180\<rfloor>) (drawn v)"

section \<open>The scoring scheme in the words of the specification\<close>

text \<open>Whitespace-separated words: the string is cut at every whitespace character and the
  empty pieces are dropped.\<close>

fun pieces :: "string \<Rightarrow> string list" where
  "pieces [] = [[]]"
| "pieces (c # cs) =
     (if isspace c then [] # pieces cs
      else (case pieces cs of [] \<Rightarrow> [[c]] | p # ps \<Rightarrow> (c # p) # ps))"

definition spec_words :: "string \<Rightarrow> string list" where
  "spec_words s = filter (\<lambda>w. w \<noteq> []) (pieces s)"

text \<open>Name: exact match 1.0, else starts-with 0.8, else contains 0.6.  Artist: exact match
  0.9, else contains 0.5.  Album: contains 0.2.  Words: with more than one word, the matched
  fraction times 0.3, a word matching when the name or the artist contains it.\<close>

definition spec_name_bonus :: "track \<Rightarrow> string \<Rightarrow> real" where
  "spec_name_bonus t q =
     (let name = toLowerCase (or_empty (Track_Name t))
      in if name = q then 1 else if startsWith name q then 0.8
         else if includes_str name q then 0.6 else 0)"

definition spec_artist_bonus :: "track \<Rightarrow> string \<Rightarrow> real" where
  "spec_artist_bonus t q =
     (let artist = toLowerCase (or_empty (Artist_Names t))
      in if artist = q then 0.9 else if includes_str artist q then 0.5 else 0)"

definition spec_album_bonus :: "track \<Rightarrow> string \<Rightarrow> real" where
  "spec_album_bonus t q =
     (if includes_str (toLowerCase (or_empty (Album_Name t))) q then 0.2 else 0)"

definition word_matches :: "track \<Rightarrow> string \<Rightarrow> bool" where
  "word_matches t w =
     (includes_str (toLowerCase (or_empty (Track_Name t))) w
      \<or> includes_str (toLowerCase (or_empty (Artist_Names t))) w)"

definition spec_word_bonus :: "track \<Rightarrow> string \<Rightarrow> real" where
  "spec_word_bonus t q =
     (let ws = spec_words q
      in if length ws > 1
         then (real (length (filter (word_matches t) ws)) / real (length ws)) * 0.3
         else 0)"

definition spec_text_score :: "track \<Rightarrow> string \<Rightarrow> real" where
  "spec_text_score t rawQuery =
     (let q = toLowerCase (trim rawQuery)
      in min (spec_name_bonus t q + spec_artist_bonus t q + spec_album_bonus t q
              + spec_word_bonus t q) 1)"

text \<open>The five dimensions of a track and of a slider target, a missing value counting as 0;
  the tempo slider is in BPM and is normalised by \<open>(tempo - 40) / 180\<close>, clamped to
  \<open>[0, 1]\<close>.\<close>

fun value_or_zero :: "jsnum \<Rightarrow> real" where
  "value_or_zero (Num x) = x"
| "value_or_zero Undefined = 0"
| "value_or_zero Null = 0"
| "value_or_zero NaN = 0"

definition spec_track_value :: "track \<Rightarrow> field \<Rightarrow> real" where
  "spec_track_value t k = value_or_zero (num t k)"

definition spec_target :: "sliders \<Rightarrow> field \<Rightarrow> real" where
  "spec_target s k =
     (if k = tempoNorm
      then (case s Tempo of Num x \<Rightarrow> max 0 (min 1 ((x - 40) / 180)) | _ \<Rightarrow> 0)
      else value_or_zero (s k))"

definition spec_distance :: "track \<Rightarrow> sliders \<Rightarrow> real" where
  "spec_distance t s =
     sqrt ((spec_track_value t Danceability - spec_target s Danceability)\<^sup>2
         + (spec_track_value t Energy - spec_target s Energy)\<^sup>2
         + (spec_track_value t Valence - spec_target s Valence)\<^sup>2
         + (spec_track_value t tempoNorm - spec_target s tempoNorm)\<^sup>2
         + (spec_track_value t Acousticness - spec_target s Acousticness)\<^sup>2)"

definition spec_feature_score :: "track \<Rightarrow> sliders \<Rightarrow> real" where
  "spec_feature_score t s = 1 - spec_distance t s / sqrt 5"

section \<open>The stages of search\<close>

text \<open>The list that search sorts, and the sorted list before it is sliced.\<close>

definition filtered_of :: "track list \<Rightarrow> params \<Rightarrow> scored list" where
  "filtered_of tracks p =
     (if hasQuery p then filter (\<lambda>s. score s > 0) (map (scoreTrack p) tracks)
      else map (scoreTrack p) tracks)"

definition ranked :: "track list \<Rightarrow> params \<Rightarrow> scored list" where
  "ranked tracks p = sort_key (\<lambda>s. - score s) (filtered_of tracks p)"

section \<open>The outcome of a call of search\<close>

text \<open>The body of \<open>search\<close> has no \<open>throw\<close> and, on arguments of the documented types,
  calls nothing that throws: every path ends in a \<open>return\<close> of a list.\<close>

datatype error = InvalidArgument

definition search_outcome :: "track list \<Rightarrow> params \<Rightarrow> int \<Rightarrow> error + scored list" where
  "search_outcome tracks p limit = Inr (search tracks p limit)"

section \<open>Example inputs\<close>

definition no_features :: "field \<Rightarrow> jsnum" where
  "no_features = (\<lambda>k. Undefined)"

definition sun :: track where
  "sun = \<lparr>Track_Name = Some ''Sun'', Artist_Names = Some ''Aria'', Album_Name = Some ''Dawn'',
          num = no_features(Danceability := Num 0.8)\<rparr>"

definition moon :: track where
  "moon = \<lparr>Track_Name = Some ''Moon'', Artist_Names = Some ''Luna'', Album_Name = Some ''Dusk'',
           num = no_features(Danceability := Num 0.2)\<rparr>"

definition no_sliders :: sliders where
  "no_sliders = (\<lambda>k. Null)"

definition text_only :: "string \<Rightarrow> params" where
  "text_only q = \<lparr>query = Some q, sliders = Some no_sliders\<rparr>"

definition sliders_only :: "sliders \<Rightarrow> params" where
  "sliders_only s = \<lparr>query = Some [], sliders = Some s\<rparr>"

definition dance_slider :: sliders where
  "dance_slider = no_sliders(Danceability := Num 0.8)"

definition star :: track where
  "star = \<lparr>Track_Name = Some ''Star'', Artist_Names = Some ''Aria'', Album_Name = Some ''Night'',
           num = no_features(Danceability := Num 0.5)\<rparr>"

section \<open>Ranges of the feature values\<close>

definition in_unit :: "real \<Rightarrow> bool" where
  "in_unit x = (0 \<le> x \<and> x \<le> 1)"

text \<open>A track whose five feature values, a missing one counting as 0, lie in \<open>[0, 1]\<close>.\<close>

definition track_in_range :: "track \<Rightarrow> bool" where
  "track_in_range t = list_all (\<lambda>k. in_unit (value_or_zero (num t k))) FEATURE_KEYS"

text \<open>Sliders whose danceability, energy, valence and acousticness lie in \<open>[0, 1]\<close>, a
  missing one counting as 0.  The tempo slider is free: its normalisation clamps it.\<close>

definition sliders_in_range :: "sliders \<Rightarrow> bool" where
  "sliders_in_range s =
     list_all (\<lambda>k. in_unit (value_or_zero (s k))) [Danceability, Energy, Valence, Acousticness]"

definition wild_slider :: sliders where
  "wild_slider = no_sliders(Danceability := Num 5)"

section \<open>The reasons in the words of the specification\<close>

definition name_reason :: "string \<Rightarrow> string" where
  "name_reason q = ''Matched your search '' @ dquote @ q @ dquote @ '' in the track name''"

definition artist_reason :: "string \<Rightarrow> string" where
  "artist_reason q = ''Found '' @ dquote @ q @ dquote @ '' among the artists''"

definition partial_reason :: "string \<Rightarrow> string" where
  "partial_reason q = ''Partial match for '' @ dquote @ q @ dquote"

definition name_has :: "track \<Rightarrow> string \<Rightarrow> bool" where
  "name_has t q = includes_str (toLowerCase (or_empty (Track_Name t))) (toLowerCase q)"

definition artist_has :: "track \<Rightarrow> string \<Rightarrow> bool" where
  "artist_has t q = includes_str (toLowerCase (or_empty (Artist_Names t))) (toLowerCase q)"

text \<open>The absolute difference between a track's value and the normalised slider target in
  one dimension, and the sentence that cites a dimension: the tempo in BPM, any other
  dimension as a percentage.\<close>

definition gap :: "track \<Rightarrow> sliders \<Rightarrow> field \<Rightarrow> real" where
  "gap t s k = \<bar>spec_track_value t k - spec_target s k\<bar>"

definition slider_reason :: "track \<Rightarrow> field \<Rightarrow> string" where
  "slider_reason t k =
     ''Closest on ''
     @ (if k = tempoNorm then ''Tempo ('' @ round_to_string (num t Tempo) @ '' BPM''
        else key_name k @ '' ('' @ toFixed0 (spec_track_value t k * 100) @ ''%'')
     @ '') '' @ em_dash @ '' strong alignment with your slider settings''"

definition pulse :: track where
  "pulse = \<lparr>Track_Name = Some ''Pulse'', Artist_Names = Some ''Nova'', Album_Name = None,
            num = (\<lambda>k. Num 0.9)(Tempo := Num 130, tempoNorm := Num 0.5)\<rparr>"

definition tempo_slider :: sliders where
  "tempo_slider = no_sliders(Tempo := Num 130)"

definition sun_and_dance :: params where
  "sun_and_dance = \<lparr>query = Some ''sun'', sliders = Some dance_slider\<rparr>"

section \<open>Feature visualizer: ranges\<close>

text \<open>The track property behind each feature of the visualizer.\<close>

fun field_of :: "vkey \<Rightarrow> field" where
  "field_of valence = Valence"
| "field_of energy = Energy"
| "field_of danceability = Danceability"
| "field_of tempo = tempoNorm"
| "field_of loudness = loudnessNorm"
| "field_of acousticness = Acousticness"
| "field_of liveness = Liveness"
| "field_of instrumentalness = Instrumentalness"

definition feats_in_range :: "feats \<Rightarrow> bool" where
  "feats_in_range f = list_all (\<lambda>k. in_unit (f k)) VKEYS"

text \<open>An event whose track, if it sets one, has all its feature values in \<open>[0, 1]\<close> once
  the missing ones are defaulted.\<close>

fun event_in_range :: "event \<Rightarrow> bool" where
  "event_in_range (SetTrack t) = feats_in_range (track_features t)"
| "event_in_range Tick = True"
| "event_in_range Destroy = True"

text \<open>The size that a tick gives a particle (line 144, with the pulse of line 118).\<close>

definition tick_size :: "feats \<Rightarrow> real \<Rightarrow> particle \<Rightarrow> real" where
  "tick_size f tm p =
     psize p * (0.8 + (sin (tm * (0.5 + f tempo * 4)) * 0.5 + 0.5) * 0.4 * f danceability)"

text \<open>What holds of every state that in-range tracks lead to.\<close>

definition in_range_state :: "visualizer \<Rightarrow> bool" where
  "in_range_state v =
     ((\<forall>f. features v = Some f \<longrightarrow> feats_in_range f)
      \<and> (\<forall>tf. targetFeatures v = Some tf \<longrightarrow> feats_in_range tf)
      \<and> (\<forall>p\<in>set (particles v). 0 \<le> psize p)
      \<and> (\<forall>c\<in>set (canvas v). valid_call c)
      \<and> (\<forall>n. 0 \<le> randoms v n))"

definition off_scale :: track where
  "off_scale = \<lparr>Track_Name = Some ''Off'', Artist_Names = None, Album_Name = None,
                num = no_features(Valence := Num 5, Danceability := Num (- 10))\<rparr>"

section \<open>Properties of the ranking engine: the text score\<close>

lemma pieces_nonempty: "pieces s \<noteq> []"
  by (induction s) (auto split: list.splits)

lemma spec_words_dropWhile: "spec_words (dropWhile isspace s) = spec_words s"
  by (induction s) (auto simp: spec_words_def)

lemma split_ws_pieces:
  "filter (\<lambda>w. w \<noteq> []) (split_ws cur s) =
   filter (\<lambda>w. w \<noteq> []) (case pieces s of [] \<Rightarrow> [rev cur] | p # ps \<Rightarrow> (rev cur @ p) # ps)"
proof (induction cur s rule: split_ws.induct)
  case (1 cur)
  then show ?case by simp
next
  case (2 cur c cs)
  show ?case
  proof (cases "isspace c")
    case True
    have "filter (\<lambda>w. w \<noteq> []) (split_ws [] (dropWhile isspace cs))
          = spec_words (dropWhile isspace cs)"
      using 2(1)[OF True] pieces_nonempty[of "dropWhile isspace cs"]
      by (auto simp: spec_words_def split: list.splits)
    then show ?thesis using True spec_words_dropWhile[of cs]
      by (simp add: spec_words_def)
  next
    case False
    then show ?thesis using 2(2)[OF False] pieces_nonempty[of cs]
      by (auto split: list.splits)
  qed
qed

text \<open>A string that neither starts nor ends with whitespace splits without empty pieces.\<close>

lemma split_ws_no_empty:
  "cur \<noteq> [] \<or> (s \<noteq> [] \<and> \<not> isspace (hd s)) \<Longrightarrow> (s \<noteq> [] \<longrightarrow> \<not> isspace (last s)) \<Longrightarrow>
   [] \<notin> set (split_ws cur s)"
proof (induction cur s rule: split_ws.induct)
  case (1 cur)
  then show ?case by simp
next
  case (2 cur c cs)
  show ?case
  proof (cases "isspace c")
    case True
    with 2(3) have cur: "cur \<noteq> []" by simp
    from True 2(4) have cs: "cs \<noteq> []" "\<not> isspace (last cs)" by (auto split: if_splits)
    then have "last cs \<in> set cs" by simp
    with cs have d: "dropWhile isspace cs \<noteq> []" by (metis dropWhile_eq_Nil_conv)
    then have h: "\<not> isspace (hd (dropWhile isspace cs))" by (simp add: hd_dropWhile)
    have "last (dropWhile isspace cs) = last cs"
      using d by (metis last_appendR takeWhile_dropWhile_id)
    with cs d h have "[] \<notin> set (split_ws [] (dropWhile isspace cs))"
      using 2(1)[OF True] by simp
    with cur True show ?thesis by simp
  next
    case False
    then show ?thesis using 2(2)[OF False] 2(4) by (auto split: if_splits)
  qed
qed

lemma lower_char_cases: "lower_char c = c \<or> lower_char c \<in> set ''abcdefghijklmnopqrstuvwxyz''"
  unfolding lower_char_def
  by (simp split: option.splits)

lemma letters_not_space: "x \<in> set ''abcdefghijklmnopqrstuvwxyz'' \<Longrightarrow> \<not> isspace x"
  by (auto simp: isspace_def)

lemma lower_char_not_space: "\<not> isspace c \<Longrightarrow> \<not> isspace (lower_char c)"
  using lower_char_cases[of c] letters_not_space[of "lower_char c"] by metis

lemma trim_hd: "trim s \<noteq> [] \<Longrightarrow> \<not> isspace (hd (trim s))"
proof -
  assume a: "trim s \<noteq> []"
  let ?d = "dropWhile isspace s"
  from a have d: "dropWhile isspace (rev ?d) \<noteq> []" by (simp add: trim_def)
  have "?d \<noteq> []"
  proof
    assume "?d = []"
    with d show False by simp
  qed
  have "hd (trim s) = last (dropWhile isspace (rev ?d))"
    using d by (simp add: trim_def hd_rev)
  also have "\<dots> = last (rev ?d)"
    using d by (metis last_appendR takeWhile_dropWhile_id)
  also have "\<dots> = hd ?d" using \<open>?d \<noteq> []\<close> by (simp add: last_rev)
  finally show ?thesis using \<open>?d \<noteq> []\<close> by (simp add: hd_dropWhile)
qed

lemma trim_last: "trim s \<noteq> [] \<Longrightarrow> \<not> isspace (last (trim s))"
  by (simp add: trim_def last_rev hd_dropWhile)

lemma split_whitespace_trimmed:
  assumes "trim s \<noteq> []"
  shows "split_whitespace (toLowerCase (trim s)) = spec_words (toLowerCase (trim s))"
proof -
  let ?q = "toLowerCase (trim s)"
  from assms have ne: "?q \<noteq> []" by (simp add: toLowerCase_def)
  have h: "\<not> isspace (hd ?q)"
    using assms trim_hd[OF assms] by (simp add: toLowerCase_def hd_map lower_char_not_space)
  have l: "\<not> isspace (last ?q)"
    using assms trim_last[OF assms] by (simp add: toLowerCase_def last_map lower_char_not_space)
  have "[] \<notin> set (split_ws [] ?q)"
    using split_ws_no_empty[of "[]" ?q] ne h l by simp
  then have "split_ws [] ?q = filter (\<lambda>w. w \<noteq> []) (split_ws [] ?q)"
    by (metis (mono_tags, lifting) filter_True)
  also have "\<dots> = spec_words ?q"
    using split_ws_pieces[of "[]" ?q] pieces_nonempty[of ?q]
    by (auto simp: spec_words_def split: list.splits)
  finally show ?thesis by (simp add: split_whitespace_def)
qed

lemma name_step:
  "(if name = q then 0 + 1.0 else if startsWith name q then 0 + 0.8
    else if includes_str name q then 0 + 0.6 else (0::real))
   = (if name = q then 1 else if startsWith name q then 0.8
      else if includes_str name q then 0.6 else 0)"
  by simp

lemma artist_step:
  "(if artist = q then s + 0.9 else if includes_str artist q then s + 0.5 else (s::real))
   = s + (if artist = q then 0.9 else if includes_str artist q then 0.5 else 0)"
  by simp

lemma album_step:
  "(if c then s + 0.2 else (s::real)) = s + (if c then 0.2 else 0)"
  by simp

lemma words_step:
  "(if c then s + x * 0.3 else (s::real)) = s + (if c then x * 0.3 else 0)"
  by simp

lemma computeTextScore_spec:
  assumes "trim rawQuery \<noteq> []"
  shows "computeTextScore t (toLowerCase (trim rawQuery)) = spec_text_score t rawQuery"
  unfolding computeTextScore_def spec_text_score_def spec_name_bonus_def spec_artist_bonus_def
    spec_album_bonus_def spec_word_bonus_def Let_def split_whitespace_trimmed[OF assms]
    word_matches_def
  by (simp only: name_step artist_step album_step words_step)


section \<open>Properties of the ranking engine: the structure of the result list\<close>

lemma insert_by_insort_key: "insert_by (\<lambda>a b. k a - k b) x xs = insort_key k x xs"
  by (induction xs) auto

lemma sort_by_sort_key: "sort_by (\<lambda>a b. k a - k b) xs = sort_key k xs"
  by (induction xs) (auto simp: insert_by_insort_key)

lemma sort_by_score_desc:
  "sort_by (\<lambda>a b. score b - score a) xs = sort_key (\<lambda>s. - score s) xs"
  using sort_by_sort_key[of "\<lambda>s. - score s" xs] by simp

lemma set_slice0: "r \<in> set (slice0 xs n) \<Longrightarrow> r \<in> set xs"
  by (auto simp: slice0_def dest: in_set_takeD split: if_splits)

lemma search_sorted_filtered:
  "search tracks p limit =
     (if \<not> hasQuery p \<and> \<not> hasSliders p then []
      else slice0 (sort_key (\<lambda>s. - score s)
                     (if hasQuery p then filter (\<lambda>s. score s > 0) (map (scoreTrack p) tracks)
                      else map (scoreTrack p) tracks)) limit)"
  unfolding search_def Let_def sort_by_score_desc ..

lemma search_members:
  assumes "r \<in> set (search tracks p limit)"
  shows "(hasQuery p \<or> hasSliders p) \<and> (\<exists>t\<in>set tracks. r = scoreTrack p t)
         \<and> (hasQuery p \<longrightarrow> score r > 0)"
proof (cases "hasQuery p")
  case True
  with assms have "r \<in> set (slice0 (sort_key (\<lambda>s. - score s)
                     (filter (\<lambda>s. score s > 0) (map (scoreTrack p) tracks))) limit)"
    by (simp add: search_sorted_filtered)
  then have "r \<in> set (sort_key (\<lambda>s. - score s)
                     (filter (\<lambda>s. score s > 0) (map (scoreTrack p) tracks)))"
    by (rule set_slice0)
  then have "r \<in> set (filter (\<lambda>s. score s > 0) (map (scoreTrack p) tracks))"
    by (simp only: set_sort)
  then have "r \<in> scoreTrack p ` set tracks" "score r > 0"
    by simp_all
  with True show ?thesis by blast
next
  case False
  with assms have s: "hasSliders p"
    by (cases "hasSliders p") (simp_all add: search_sorted_filtered)
  with False assms have "r \<in> set (slice0 (sort_key (\<lambda>s. - score s)
                     (map (scoreTrack p) tracks)) limit)"
    by (simp add: search_sorted_filtered)
  then have "r \<in> set (sort_key (\<lambda>s. - score s) (map (scoreTrack p) tracks))"
    by (rule set_slice0)
  then have "r \<in> scoreTrack p ` set tracks"
    by (simp only: set_sort set_map)
  with False s show ?thesis by blast
qed

lemma track_scoreTrack: "track (scoreTrack p t) = t"
  by (simp add: scoreTrack_def Let_def)

lemma score_scoreTrack:
  "score (scoreTrack p t) =
     (if hasQuery p \<and> hasSliders p then textScoreOf p t * 0.55 + featureScoreOf p t * 0.45
      else if hasQuery p then textScoreOf p t else featureScoreOf p t)"
  by (simp add: scoreTrack_def Let_def)

lemma textScoreOf_spec: "hasQuery p \<Longrightarrow> textScoreOf p t = spec_text_score t (get_query p)"
  by (simp add: textScoreOf_def hasQuery_def computeTextScore_spec)

text \<open>
  Claim C1.  When the trimmed query is non-empty, the text score that search computes for
  a track is the additive scheme of the specification, clamped at 1: the name, artist and
  album bonuses plus the matched fraction of the words times 0.3.  It is the score of a
  result of a text-only search, and enters the score of a combined search with weight 0.55.
\<close>

theorem text_score_is_additive_scheme:
  assumes "hasQuery p"
  shows "textScoreOf p t = spec_text_score t (get_query p)
         \<and> (\<forall>r\<in>set (search tracks p limit).
              score r = (if hasSliders p
                         then spec_text_score (track r) (get_query p) * 0.55
                              + featureScoreOf p (track r) * 0.45
                         else spec_text_score (track r) (get_query p)))"
proof (intro conjI ballI)
  show "textScoreOf p t = spec_text_score t (get_query p)"
    using assms by (rule textScoreOf_spec)
next
  fix r assume "r \<in> set (search tracks p limit)"
  then obtain t' where "r = scoreTrack p t'" using search_members by blast
  then show "score r = (if hasSliders p
                         then spec_text_score (track r) (get_query p) * 0.55
                              + featureScoreOf p (track r) * 0.45
                         else spec_text_score (track r) (get_query p))"
    using assms by (simp add: score_scoreTrack track_scoreTrack textScoreOf_spec)
qed

lemma hasQuery_aria: "hasQuery (text_only '' Aria '')"
  by (simp add: hasQuery_def get_query_def text_only_def trim_def isspace_def)

lemma hasSliders_text_only: "\<not> hasSliders (text_only q)"
  by (simp add: hasSliders_def text_only_def no_sliders_def SLIDER_KEYS_def)

lemma spec_text_score_sun_aria: "spec_text_score sun '' Aria '' = 9 / 10"
  by (simp add: spec_text_score_def spec_name_bonus_def spec_artist_bonus_def
      spec_album_bonus_def spec_word_bonus_def spec_words_def sun_def trim_def isspace_def
      toLowerCase_def lower_char_def)

lemma spec_text_score_moon_aria: "spec_text_score moon '' Aria '' = 0"
  by (simp add: spec_text_score_def spec_name_bonus_def spec_artist_bonus_def
      spec_album_bonus_def spec_word_bonus_def spec_words_def moon_def trim_def isspace_def
      toLowerCase_def lower_char_def)

lemma search_sun_moon_aria:
  "search [sun, moon] (text_only '' Aria '') 5 = [scoreTrack (text_only '' Aria '') sun]"
proof -
  let ?p = "text_only '' Aria ''"
  have q: "get_query ?p = '' Aria ''" by (simp add: get_query_def text_only_def)
  have s: "score (scoreTrack ?p sun) = 9 / 10"
    using hasQuery_aria hasSliders_text_only[of "'' Aria ''"] spec_text_score_sun_aria
    by (simp add: score_scoreTrack textScoreOf_spec q)
  have m: "score (scoreTrack ?p moon) = 0"
    using hasQuery_aria hasSliders_text_only[of "'' Aria ''"] spec_text_score_moon_aria
    by (simp add: score_scoreTrack textScoreOf_spec q)
  show ?thesis
    using hasQuery_aria s m by (simp add: search_sorted_filtered slice0_def)
qed

theorem text_score_is_additive_scheme_witness:
  "hasQuery (text_only '' Aria '')
   \<and> textScoreOf (text_only '' Aria '') sun = 9 / 10
   \<and> map track (search [sun, moon] (text_only '' Aria '') 5) = [sun]
   \<and> map score (search [sun, moon] (text_only '' Aria '') 5) = [9 / 10]"
proof -
  let ?p = "text_only '' Aria ''"
  have q: "get_query ?p = '' Aria ''" by (simp add: get_query_def text_only_def)
  note inst = text_score_is_additive_scheme[OF hasQuery_aria, of sun "[sun, moon]" 5]
  from inst have "textScoreOf ?p sun = 9 / 10"
    by (simp add: q spec_text_score_sun_aria)
  moreover have "map track (search [sun, moon] ?p 5) = [sun]"
    by (simp add: search_sun_moon_aria track_scoreTrack)
  moreover have "map score (search [sun, moon] ?p 5) = [9 / 10]"
  proof -
    have r: "scoreTrack ?p sun \<in> set (search [sun, moon] ?p 5)"
      by (simp add: search_sun_moon_aria)
    from inst r have "score (scoreTrack ?p sun) = spec_text_score sun '' Aria ''"
      using hasSliders_text_only[of "'' Aria ''"] by (simp add: q track_scoreTrack)
    then show ?thesis by (simp add: search_sun_moon_aria spec_text_score_sun_aria)
  qed
  ultimately show ?thesis using hasQuery_aria by blast
qed

section \<open>Properties of the ranking engine: the feature score\<close>

lemma or_default_zero: "or_default v 0 = value_or_zero v"
  by (cases v) auto

lemma normalizedSliders_active:
  "hasSliders p \<Longrightarrow> sliders p = Some s \<Longrightarrow> normalizedSliders p = Some (normalizeSliders s)"
  by (simp add: normalizedSliders_def)

lemma normalizedSliders_inactive: "\<not> hasSliders p \<Longrightarrow> normalizedSliders p = None"
  by (simp add: normalizedSliders_def split: option.splits)

lemma hasSliders_Some: "hasSliders p \<Longrightarrow> \<exists>s. sliders p = Some s"
  by (cases "sliders p") (simp_all add: hasSliders_def)

lemma target_tempoNorm: "or_default (normalizeSliders s tempoNorm) 0 = spec_target s tempoNorm"
  by (cases "s Tempo") (auto simp: normalizeSliders_def spec_target_def)

lemma target_other:
  "k \<in> {Danceability, Energy, Valence, Acousticness} \<Longrightarrow>
   or_default (normalizeSliders s k) 0 = spec_target s k"
  by (auto simp: normalizeSliders_def spec_target_def or_default_zero)

lemma euclideanDistance_spec: "euclideanDistance t (normalizeSliders s) = spec_distance t s"
proof -
  have "euclideanDistance t (normalizeSliders s) =
        sqrt ((or_default (num t Danceability) 0 - or_default (normalizeSliders s Danceability) 0)\<^sup>2
            + (or_default (num t Energy) 0 - or_default (normalizeSliders s Energy) 0)\<^sup>2
            + (or_default (num t Valence) 0 - or_default (normalizeSliders s Valence) 0)\<^sup>2
            + (or_default (num t tempoNorm) 0 - or_default (normalizeSliders s tempoNorm) 0)\<^sup>2
            + (or_default (num t Acousticness) 0 - or_default (normalizeSliders s Acousticness) 0)\<^sup>2)"
    by (simp add: euclideanDistance_def FEATURE_KEYS_def Let_def power2_eq_square)
  then show ?thesis
    by (simp add: spec_distance_def spec_track_value_def target_tempoNorm target_other
        or_default_zero[of "num t _"])
qed

lemma featureScoreOf_spec:
  assumes "hasSliders p" "sliders p = Some s"
  shows "featureScoreOf p t = spec_feature_score t s"
  using assms
  by (simp add: featureScoreOf_def normalizedSliders_active Let_def FEATURE_KEYS_def
      euclideanDistance_spec spec_feature_score_def)

lemma spec_distance_zero:
  assumes "\<forall>k\<in>set FEATURE_KEYS. spec_track_value t k = spec_target s k"
  shows "spec_distance t s = 0"
  using assms by (simp add: spec_distance_def FEATURE_KEYS_def)

lemma spec_feature_score_antimono:
  "spec_distance t s < spec_distance t' s' \<Longrightarrow> spec_feature_score t' s' < spec_feature_score t s"
  by (simp add: spec_feature_score_def divide_strict_right_mono)

text \<open>
  Claim C2.  With at least one non-null slider, the feature score of a track is
  \<open>1 - d / sqrt 5\<close>, where \<open>d\<close> is the Euclidean distance over danceability, energy,
  valence, tempoNorm and acousticness between the track's values and the normalised slider
  targets, a missing value on either side counting as 0.  So it is exactly 1 when the
  track's values equal the targets, it is strictly smaller for a strictly larger distance,
  and it is the score of every result of a sliders-only search.
\<close>

theorem feature_score_is_inverted_distance:
  assumes "hasSliders p" and "sliders p = Some s"
  shows "featureScoreOf p t = 1 - spec_distance t s / sqrt 5
         \<and> ((\<forall>k\<in>set FEATURE_KEYS. spec_track_value t k = spec_target s k)
              \<longrightarrow> featureScoreOf p t = 1)
         \<and> (\<forall>p' s' t'. hasSliders p' \<and> sliders p' = Some s'
                \<and> spec_distance t s < spec_distance t' s'
              \<longrightarrow> featureScoreOf p' t' < featureScoreOf p t)
         \<and> (\<not> hasQuery p \<longrightarrow>
              (\<forall>r\<in>set (search tracks p limit). score r = 1 - spec_distance (track r) s / sqrt 5))"
proof (intro conjI impI allI ballI)
  show "featureScoreOf p t = 1 - spec_distance t s / sqrt 5"
    using featureScoreOf_spec[OF assms] by (simp add: spec_feature_score_def)
next
  assume "\<forall>k\<in>set FEATURE_KEYS. spec_track_value t k = spec_target s k"
  then have "spec_distance t s = 0" by (rule spec_distance_zero)
  then show "featureScoreOf p t = 1"
    using featureScoreOf_spec[OF assms] by (simp add: spec_feature_score_def)
next
  fix p' s' t'
  assume a: "hasSliders p' \<and> sliders p' = Some s' \<and> spec_distance t s < spec_distance t' s'"
  then have "featureScoreOf p' t' = spec_feature_score t' s'"
    by (simp add: featureScoreOf_spec)
  moreover have "featureScoreOf p t = spec_feature_score t s"
    by (rule featureScoreOf_spec[OF assms])
  ultimately show "featureScoreOf p' t' < featureScoreOf p t"
    using a spec_feature_score_antimono by simp
next
  fix r
  assume nq: "\<not> hasQuery p" and "r \<in> set (search tracks p limit)"
  then obtain t' where "r = scoreTrack p t'" using search_members by blast
  then show "score r = 1 - spec_distance (track r) s / sqrt 5"
    using nq featureScoreOf_spec[OF assms]
    by (simp add: score_scoreTrack track_scoreTrack spec_feature_score_def)
qed

lemma hasSliders_dance: "hasSliders (sliders_only dance_slider)"
  by (simp add: hasSliders_def sliders_only_def dance_slider_def SLIDER_KEYS_def)

lemma hasQuery_sliders_only: "\<not> hasQuery (sliders_only s)"
  by (simp add: hasQuery_def sliders_only_def get_query_def trim_def)

lemma sun_on_target:
  "\<forall>k\<in>set FEATURE_KEYS. spec_track_value sun k = spec_target dance_slider k"
  by (simp add: FEATURE_KEYS_def spec_track_value_def spec_target_def sun_def dance_slider_def
      no_sliders_def no_features_def)

lemma spec_distance_moon: "spec_distance moon dance_slider = 3 / 5"
proof -
  have "spec_distance moon dance_slider = sqrt ((3 / 5)\<^sup>2)"
    by (simp add: spec_distance_def spec_track_value_def spec_target_def moon_def
        dance_slider_def no_sliders_def no_features_def power2_eq_square)
  then show ?thesis by simp
qed

lemma feature_scores_dance:
  "featureScoreOf (sliders_only dance_slider) sun = 1"
  "featureScoreOf (sliders_only dance_slider) moon = 1 - (3 / 5) / sqrt 5"
proof -
  have sl: "sliders (sliders_only dance_slider) = Some dance_slider"
    by (simp add: sliders_only_def)
  have "spec_distance sun dance_slider = 0"
    using sun_on_target by (rule spec_distance_zero)
  then show "featureScoreOf (sliders_only dance_slider) sun = 1"
    by (simp add: featureScoreOf_spec[OF hasSliders_dance sl] spec_feature_score_def)
  show "featureScoreOf (sliders_only dance_slider) moon = 1 - (3 / 5) / sqrt 5"
    by (simp add: featureScoreOf_spec[OF hasSliders_dance sl] spec_feature_score_def
        spec_distance_moon)
qed

theorem feature_score_is_inverted_distance_witness:
  "hasSliders (sliders_only dance_slider)
   \<and> sliders (sliders_only dance_slider) = Some dance_slider
   \<and> \<not> hasQuery (sliders_only dance_slider)
   \<and> featureScoreOf (sliders_only dance_slider) sun = 1
   \<and> featureScoreOf (sliders_only dance_slider) moon = 1 - (3 / 5) / sqrt 5
   \<and> featureScoreOf (sliders_only dance_slider) moon < featureScoreOf (sliders_only dance_slider) sun
   \<and> map track (search [moon, sun] (sliders_only dance_slider) 5) = [sun, moon]
   \<and> map score (search [moon, sun] (sliders_only dance_slider) 5) = [1, 1 - (3 / 5) / sqrt 5]"
proof -
  let ?p = "sliders_only dance_slider"
  have sl: "sliders ?p = Some dance_slider" by (simp add: sliders_only_def)
  note sun_inst = feature_score_is_inverted_distance[OF hasSliders_dance sl, of sun "[moon, sun]" 5]
  note moon_inst = feature_score_is_inverted_distance[OF hasSliders_dance sl, of moon "[moon, sun]" 5]
  have d0: "spec_distance sun dance_slider = 0"
    using sun_on_target by (rule spec_distance_zero)
  from sun_inst sun_on_target have one: "featureScoreOf ?p sun = 1" by blast
  from moon_inst have m: "featureScoreOf ?p moon = 1 - (3 / 5) / sqrt 5"
    by (simp add: spec_distance_moon)
  from sun_inst have "hasSliders ?p \<and> sliders ?p = Some dance_slider
        \<and> spec_distance sun dance_slider < spec_distance moon dance_slider
      \<longrightarrow> featureScoreOf ?p moon < featureScoreOf ?p sun"
    by blast
  with hasSliders_dance sl have lt: "featureScoreOf ?p moon < featureScoreOf ?p sun"
    by (simp add: d0 spec_distance_moon)
  have ss: "score (scoreTrack ?p sun) = 1" "score (scoreTrack ?p moon) = 1 - (3 / 5) / sqrt 5"
    using one m hasQuery_sliders_only[of dance_slider] by (simp_all add: score_scoreTrack)
  have srch: "search [moon, sun] ?p 5 = [scoreTrack ?p sun, scoreTrack ?p moon]"
    using hasSliders_dance hasQuery_sliders_only[of dance_slider] ss
    by (simp add: search_sorted_filtered slice0_def)
  show ?thesis
    using hasSliders_dance sl hasQuery_sliders_only[of dance_slider] one m lt
    by (simp add: srch track_scoreTrack ss)
qed

section \<open>Properties of the ranking engine: order, ties and truncation\<close>

lemma search_empty_when_inactive:
  "\<not> hasQuery p \<Longrightarrow> \<not> hasSliders p \<Longrightarrow> search tracks p limit = []"
  by (simp add: search_def)

lemma search_ranked:
  "hasQuery p \<or> hasSliders p \<Longrightarrow> search tracks p limit = slice0 (ranked tracks p) limit"
  by (auto simp: search_sorted_filtered ranked_def filtered_of_def)

lemma sorted_ranked: "sorted_wrt (\<lambda>a b. score a \<ge> score b) (ranked tracks p)"
proof -
  have "sorted (map (\<lambda>s. - score s) (ranked tracks p))"
    unfolding ranked_def by (rule sorted_sort_key)
  then show ?thesis by (simp add: sorted_map)
qed

lemma stable_ranked:
  "filter (\<lambda>r. score r = k) (ranked tracks p) = filter (\<lambda>r. score r = k) (filtered_of tracks p)"
proof -
  have "filter (\<lambda>r. - score r = - k) (ranked tracks p)
        = filter (\<lambda>r. - score r = - k) (filtered_of tracks p)"
    unfolding ranked_def by (rule sort_key_stable)
  then show ?thesis by simp
qed

lemma filtered_of_ties:
  "prefix (filter (\<lambda>r. score r = k) (filtered_of tracks p))
          (filter (\<lambda>r. score r = k) (map (scoreTrack p) tracks))"
proof (cases "hasQuery p \<and> \<not> 0 < k")
  case True
  then have "filter (\<lambda>r. score r = k) (filtered_of tracks p) = []"
    by (auto simp: filtered_of_def filter_empty_conv)
  then show ?thesis by simp
next
  case False
  then have "filter (\<lambda>r. score r = k) (filtered_of tracks p)
             = filter (\<lambda>r. score r = k) (map (scoreTrack p) tracks)"
    by (auto simp: filtered_of_def intro: filter_cong)
  then show ?thesis by simp
qed

lemma length_ranked: "length (ranked tracks p) \<le> length tracks"
  by (simp add: ranked_def filtered_of_def)

lemma tracks_of_ties:
  "map track (filter (\<lambda>r. score r = k) (map (scoreTrack p) tracks))
   = filter (\<lambda>t. score (scoreTrack p t) = k) tracks"
  by (induction tracks) (auto simp: track_scoreTrack)

text \<open>
  Claim C3.  For a positive limit, the list that search returns is sorted non-increasing by
  score; the results of any one score are, by their tracks, an initial segment of the
  library's tracks of that score in library order, so ties keep the order of the library;
  and the list has at most limit entries.
\<close>

theorem search_sorted_stable_truncated:
  assumes "0 < limit"
  shows "sorted_wrt (\<lambda>a b. score a \<ge> score b) (search tracks p limit)
         \<and> (\<forall>k. prefix (map track (filter (\<lambda>r. score r = k) (search tracks p limit)))
                        (filter (\<lambda>t. score (scoreTrack p t) = k) tracks))
         \<and> int (length (search tracks p limit)) \<le> limit"
proof (cases "hasQuery p \<or> hasSliders p")
  case False
  then show ?thesis using assms by (simp add: search_empty_when_inactive)
next
  case True
  have s: "search tracks p limit = take (nat limit) (ranked tracks p)"
    using assms by (simp add: search_ranked[OF True] slice0_def)
  have "sorted_wrt (\<lambda>a b. score a \<ge> score b) (search tracks p limit)"
    unfolding s using sorted_ranked by (rule sorted_wrt_take)
  moreover have "prefix (map track (filter (\<lambda>r. score r = k) (search tracks p limit)))
                        (filter (\<lambda>t. score (scoreTrack p t) = k) tracks)" for k
  proof -
    have "prefix (filter (\<lambda>r. score r = k) (search tracks p limit))
                 (filter (\<lambda>r. score r = k) (ranked tracks p))"
      unfolding s by (intro filter_mono_prefix take_is_prefix)
    also have "filter (\<lambda>r. score r = k) (ranked tracks p)
               = filter (\<lambda>r. score r = k) (filtered_of tracks p)"
      by (rule stable_ranked)
    finally have "prefix (filter (\<lambda>r. score r = k) (search tracks p limit))
                         (filter (\<lambda>r. score r = k) (map (scoreTrack p) tracks))"
      using filtered_of_ties prefix_order.trans by blast
    then have "prefix (map track (filter (\<lambda>r. score r = k) (search tracks p limit)))
                      (map track (filter (\<lambda>r. score r = k) (map (scoreTrack p) tracks)))"
      by (rule map_mono_prefix)
    then show ?thesis by (simp only: tracks_of_ties)
  qed
  moreover have "int (length (search tracks p limit)) \<le> limit"
    unfolding s using assms by simp
  ultimately show ?thesis by blast
qed

lemma spec_text_score_star_aria: "spec_text_score star '' Aria '' = 9 / 10"
  by (simp add: spec_text_score_def spec_name_bonus_def spec_artist_bonus_def
      spec_album_bonus_def spec_word_bonus_def spec_words_def star_def trim_def isspace_def
      toLowerCase_def lower_char_def)

lemma scores_aria:
  "score (scoreTrack (text_only '' Aria '') sun) = 9 / 10"
  "score (scoreTrack (text_only '' Aria '') star) = 9 / 10"
  "score (scoreTrack (text_only '' Aria '') moon) = 0"
proof -
  have q: "get_query (text_only '' Aria '') = '' Aria ''"
    by (simp add: get_query_def text_only_def)
  show "score (scoreTrack (text_only '' Aria '') sun) = 9 / 10"
    using hasQuery_aria hasSliders_text_only[of "'' Aria ''"] spec_text_score_sun_aria
    by (simp add: score_scoreTrack textScoreOf_spec q)
  show "score (scoreTrack (text_only '' Aria '') star) = 9 / 10"
    using hasQuery_aria hasSliders_text_only[of "'' Aria ''"] spec_text_score_star_aria
    by (simp add: score_scoreTrack textScoreOf_spec q)
  show "score (scoreTrack (text_only '' Aria '') moon) = 0"
    using hasQuery_aria hasSliders_text_only[of "'' Aria ''"] spec_text_score_moon_aria
    by (simp add: score_scoreTrack textScoreOf_spec q)
qed

lemma search_ties_aria:
  "map track (search [star, moon, sun] (text_only '' Aria '') 5) = [star, sun]"
  "map track (search [sun, moon, star] (text_only '' Aria '') 5) = [sun, star]"
  using hasQuery_aria
  by (simp_all add: search_sorted_filtered slice0_def scores_aria track_scoreTrack)

theorem search_sorted_stable_truncated_witness:
  "(0::int) < 5
   \<and> map track (search [star, moon, sun] (text_only '' Aria '') 5) = [star, sun]
   \<and> map track (search [sun, moon, star] (text_only '' Aria '') 5) = [sun, star]
   \<and> sorted_wrt (\<lambda>a b. score a \<ge> score b) (search [star, moon, sun] (text_only '' Aria '') 5)
   \<and> prefix (map track (filter (\<lambda>r. score r = 9 / 10)
                (search [star, moon, sun] (text_only '' Aria '') 5))) [star, sun]
   \<and> int (length (search [star, moon, sun] (text_only '' Aria '') 5)) \<le> 5"
proof -
  have pos: "(0::int) < 5" by simp
  note inst = search_sorted_stable_truncated[OF pos, of "[star, moon, sun]" "text_only '' Aria ''"]
  from inst have "prefix (map track (filter (\<lambda>r. score r = 9 / 10)
                    (search [star, moon, sun] (text_only '' Aria '') 5)))
                  (filter (\<lambda>t. score (scoreTrack (text_only '' Aria '') t) = 9 / 10)
                    [star, moon, sun])"
    by blast
  then have "prefix (map track (filter (\<lambda>r. score r = 9 / 10)
                (search [star, moon, sun] (text_only '' Aria '') 5))) [star, sun]"
    by (simp add: scores_aria)
  with inst show ?thesis using search_ties_aria by simp
qed

section \<open>Properties of the ranking engine: reasons\<close>

lemma reasons_scoreTrack:
  "reasons (scoreTrack p t) =
     (if hasQuery p \<and> textScoreOf p t > 0 then [buildTextReason t (trim (get_query p))] else [])
     @ (case sliders p of
          Some s \<Rightarrow> if hasSliders p then [buildSliderReason t (normalizeSliders s) s] else []
        | None \<Rightarrow> [])"
  by (simp add: scoreTrack_def Let_def normalizedSliders_def split: option.splits)

text \<open>
  Claim C10.  Every result that search returns carries a non-empty list of reasons.  When
  the sliders are active, the slider reason is the last entry.  When they are not, the
  result survived the filter, so its text score is positive and the text reason is the
  only entry.
\<close>

theorem search_results_have_reasons:
  "\<forall>r\<in>set (search tracks p limit).
     reasons r \<noteq> []
     \<and> (hasSliders p \<longrightarrow>
          (\<exists>s. sliders p = Some s
               \<and> last (reasons r) = buildSliderReason (track r) (normalizeSliders s) s))
     \<and> (\<not> hasSliders p \<longrightarrow>
          0 < textScoreOf p (track r)
          \<and> reasons r = [buildTextReason (track r) (trim (get_query p))])"
proof
  fix r assume r: "r \<in> set (search tracks p limit)"
  from search_members[OF r] obtain t where
    act: "hasQuery p \<or> hasSliders p" and rt: "r = scoreTrack p t"
    and pos: "hasQuery p \<longrightarrow> score r > 0"
    by blast
  show "reasons r \<noteq> []
     \<and> (hasSliders p \<longrightarrow>
          (\<exists>s. sliders p = Some s
               \<and> last (reasons r) = buildSliderReason (track r) (normalizeSliders s) s))
     \<and> (\<not> hasSliders p \<longrightarrow>
          0 < textScoreOf p (track r)
          \<and> reasons r = [buildTextReason (track r) (trim (get_query p))])"
  proof (cases "hasSliders p")
    case True
    then obtain s where s: "sliders p = Some s" using hasSliders_Some by blast
    with True show ?thesis by (simp add: rt reasons_scoreTrack track_scoreTrack)
  next
    case False
    with act have q: "hasQuery p" by simp
    with pos False have "0 < textScoreOf p t" by (simp add: rt score_scoreTrack)
    with q False show ?thesis
      by (simp add: rt reasons_scoreTrack track_scoreTrack split: option.splits)
  qed
qed

lemma buildTextReason_sun_aria:
  "buildTextReason sun ''Aria'' = ''Found '' @ dquote @ ''Aria'' @ dquote @ '' among the artists''"
  by (simp add: buildTextReason_def sun_def toLowerCase_def lower_char_def)

theorem search_results_have_reasons_witness:
  "scoreTrack (text_only '' Aria '') sun \<in> set (search [sun, moon] (text_only '' Aria '') 5)
   \<and> reasons (scoreTrack (text_only '' Aria '') sun)
       = [''Found '' @ dquote @ ''Aria'' @ dquote @ '' among the artists'']
   \<and> 0 < textScoreOf (text_only '' Aria '') sun"
proof -
  let ?p = "text_only '' Aria ''"
  have mem: "scoreTrack ?p sun \<in> set (search [sun, moon] ?p 5)"
    by (simp add: search_sun_moon_aria)
  have q: "trim (get_query ?p) = ''Aria''"
    by (simp add: get_query_def text_only_def trim_def isspace_def)
  from search_results_have_reasons[of "[sun, moon]" ?p 5] mem
  have "\<not> hasSliders ?p \<longrightarrow>
          0 < textScoreOf ?p (track (scoreTrack ?p sun))
          \<and> reasons (scoreTrack ?p sun)
              = [buildTextReason (track (scoreTrack ?p sun)) (trim (get_query ?p))]"
    by blast
  with hasSliders_text_only[of "'' Aria ''"] mem show ?thesis
    by (simp add: track_scoreTrack q buildTextReason_sun_aria)
qed

section \<open>Properties of the ranking engine: a limit that is not positive\<close>

lemma search_full: "search tracks p (int (length tracks)) = (if hasQuery p \<or> hasSliders p then ranked tracks p else [])"
  using length_ranked[of tracks p]
  by (auto simp: search_ranked search_empty_when_inactive slice0_def)

text \<open>
  Claim C6, as the code has it.  A call with a limit that is not positive signals no error:
  it returns a list.  For limit 0 the list is empty, and for a negative limit \<open>- k\<close> it is
  the full ranking (the one a limit of the library's length gives) without its last \<open>k\<close>
  entries.
\<close>

theorem search_nonpositive_limit_returns:
  assumes "limit \<le> 0"
  shows "search_outcome tracks p limit
           = Inr (if limit = 0 then []
                  else take (length (search tracks p (int (length tracks))) - nat (- limit))
                         (search tracks p (int (length tracks))))"
proof (cases "hasQuery p \<or> hasSliders p")
  case True
  have "nat (int (length (ranked tracks p)) + limit) = length (ranked tracks p) - nat (- limit)"
    using assms by linarith
  then show ?thesis
    using assms True
    by (auto simp: search_outcome_def search_full search_ranked[OF True] slice0_def)
next
  case False
  then show ?thesis by (simp add: search_outcome_def search_empty_when_inactive)
qed

theorem search_nonpositive_limit_returns_witness:
  "(- 1 :: int) \<le> 0
   \<and> search_outcome [moon, sun] (sliders_only dance_slider) (- 1)
       = Inr [scoreTrack (sliders_only dance_slider) sun]"
proof -
  let ?p = "sliders_only dance_slider"
  have neg: "(- 1 :: int) \<le> 0" by simp
  have sun1: "score (scoreTrack ?p sun) = 1"
    using feature_scores_dance hasQuery_sliders_only[of dance_slider]
    by (simp add: score_scoreTrack)
  have moon1: "score (scoreTrack ?p moon) = 1 - (3 / 5) / sqrt 5"
    using feature_scores_dance hasQuery_sliders_only[of dance_slider]
    by (simp add: score_scoreTrack)
  have full: "search [moon, sun] ?p (int (length [moon, sun]))
              = [scoreTrack ?p sun, scoreTrack ?p moon]"
    using hasSliders_dance hasQuery_sliders_only[of dance_slider] sun1 moon1
    by (simp add: search_sorted_filtered slice0_def)
  from search_nonpositive_limit_returns[OF neg, of "[moon, sun]" ?p] show ?thesis
    unfolding full by simp
qed

text \<open>Claim C6 as stated fails: with limit 0 the call returns the empty list.\<close>

theorem search_limit_zero_counterexample:
  "(0::int) \<le> 0
   \<and> search_outcome [sun, moon] (text_only '' Aria '') 0 = Inr []
   \<and> search_outcome [sun, moon] (text_only '' Aria '') 0 \<noteq> Inl InvalidArgument"
  using hasQuery_aria by (simp add: search_outcome_def search_ranked slice0_def)

section \<open>Properties of the ranking engine: the range of the scores\<close>

lemma spec_text_score_range: "0 \<le> spec_text_score t q \<and> spec_text_score t q \<le> 1"
proof -
  let ?q = "toLowerCase (trim q)"
  have "0 \<le> spec_name_bonus t ?q" by (simp add: spec_name_bonus_def Let_def)
  moreover have "0 \<le> spec_artist_bonus t ?q" by (simp add: spec_artist_bonus_def Let_def)
  moreover have "0 \<le> spec_album_bonus t ?q" by (simp add: spec_album_bonus_def)
  moreover have "0 \<le> spec_word_bonus t ?q" by (simp add: spec_word_bonus_def Let_def)
  ultimately show ?thesis by (simp add: spec_text_score_def Let_def)
qed

lemma textScoreOf_range: "0 \<le> textScoreOf p t \<and> textScoreOf p t \<le> 1"
proof (cases "hasQuery p")
  case True
  then show ?thesis using spec_text_score_range by (simp add: textScoreOf_spec)
next
  case False
  then show ?thesis by (simp add: textScoreOf_def)
qed

lemma spec_target_tempo_range: "in_unit (spec_target s tempoNorm)"
  by (cases "s Tempo") (auto simp: spec_target_def in_unit_def)

lemma square_diff_le_one:
  assumes "in_unit a" "in_unit b"
  shows "(a - b)\<^sup>2 \<le> 1"
proof -
  from assms have "\<bar>a - b\<bar> \<le> 1" by (auto simp: in_unit_def)
  then have "\<bar>a - b\<bar>\<^sup>2 \<le> 1\<^sup>2" by (intro power_mono) auto
  then show ?thesis by simp
qed

lemma spec_distance_bounds:
  assumes "track_in_range t" "sliders_in_range s"
  shows "0 \<le> spec_distance t s \<and> spec_distance t s \<le> sqrt 5"
proof -
  from assms(1) have tv: "in_unit (spec_track_value t Danceability)"
    "in_unit (spec_track_value t Energy)" "in_unit (spec_track_value t Valence)"
    "in_unit (spec_track_value t tempoNorm)" "in_unit (spec_track_value t Acousticness)"
    by (simp_all add: track_in_range_def FEATURE_KEYS_def spec_track_value_def)
  from assms(2) have sv: "in_unit (spec_target s Danceability)"
    "in_unit (spec_target s Energy)" "in_unit (spec_target s Valence)"
    "in_unit (spec_target s Acousticness)"
    by (simp_all add: sliders_in_range_def spec_target_def)
  note sq = square_diff_le_one[OF tv(1) sv(1)] square_diff_le_one[OF tv(2) sv(2)]
    square_diff_le_one[OF tv(3) sv(3)] square_diff_le_one[OF tv(4) spec_target_tempo_range[of s]]
    square_diff_le_one[OF tv(5) sv(4)]
  have "spec_distance t s \<le> sqrt 5"
    unfolding spec_distance_def using sq by (intro real_sqrt_le_mono) linarith
  moreover have "0 \<le> spec_distance t s"
    unfolding spec_distance_def by (intro real_sqrt_ge_zero add_nonneg_nonneg) simp_all
  ultimately show ?thesis by simp
qed

lemma featureScoreOf_range:
  assumes "track_in_range t" "\<forall>s. sliders p = Some s \<longrightarrow> sliders_in_range s"
  shows "0 \<le> featureScoreOf p t \<and> featureScoreOf p t \<le> 1"
proof (cases "hasSliders p")
  case True
  then obtain s where s: "sliders p = Some s" using hasSliders_Some by blast
  with assms have b: "0 \<le> spec_distance t s" "spec_distance t s \<le> sqrt 5"
    using spec_distance_bounds by blast+
  then have "spec_distance t s / sqrt 5 \<le> 1" "0 \<le> spec_distance t s / sqrt 5"
    by (simp_all add: divide_le_eq)
  then show ?thesis
    by (simp add: featureScoreOf_spec[OF True s] spec_feature_score_def)
next
  case False
  then show ?thesis by (simp add: featureScoreOf_def normalizedSliders_inactive)
qed

lemma score_range:
  assumes "track_in_range t" "\<forall>s. sliders p = Some s \<longrightarrow> sliders_in_range s"
  shows "0 \<le> score (scoreTrack p t) \<and> score (scoreTrack p t) \<le> 1"
proof -
  note f = featureScoreOf_range[OF assms]
  note x = textScoreOf_range[of p t]
  have "0 \<le> textScoreOf p t * 0.55 + featureScoreOf p t * 0.45"
    using f x by (intro add_nonneg_nonneg mult_nonneg_nonneg) simp_all
  moreover have "textScoreOf p t * 0.55 + featureScoreOf p t * 0.45 \<le> 1"
    using f x by simp
  ultimately show ?thesis using f x by (simp add: score_scoreTrack)
qed

lemma toFixed0_round: "0 \<le> x \<Longrightarrow> toFixed0 x = digits (nat (round x))"
  by (simp add: toFixed0_def round_def)

text \<open>
  Claim C4, as the code has it.  For a library whose tracks have their five feature values
  in \<open>[0, 1]\<close> and a query whose danceability, energy, valence and acousticness sliders
  are null or in \<open>[0, 1]\<close>, every result of search has a score in \<open>[0, 1]\<close>, and the
  percentage that buildExplanation states for it is \<open>round (score * 100)\<close> in decimal.
\<close>

theorem scores_in_unit_interval:
  assumes "\<forall>t\<in>set tracks. track_in_range t"
    and "\<forall>s. sliders p = Some s \<longrightarrow> sliders_in_range s"
  shows "\<forall>r\<in>set (search tracks p limit).
           0 \<le> score r \<and> score r \<le> 1
           \<and> buildExplanation r p
               = ''Match confidence: '' @ digits (nat (round (score r * 100))) @ ''%. ''
                 @ join ''. '' (reasons r) @ ''.''"
proof
  fix r assume "r \<in> set (search tracks p limit)"
  then obtain t where t: "t \<in> set tracks" "r = scoreTrack p t"
    using search_members by blast
  with assms have rng: "0 \<le> score r \<and> score r \<le> 1" using score_range by blast
  then have "toFixed0 (score r * 100) = digits (nat (round (score r * 100)))"
    by (intro toFixed0_round) simp
  with rng show "0 \<le> score r \<and> score r \<le> 1
           \<and> buildExplanation r p
               = ''Match confidence: '' @ digits (nat (round (score r * 100))) @ ''%. ''
                 @ join ''. '' (reasons r) @ ''.''"
    by (simp add: buildExplanation_def Let_def)
qed

lemma digits_90: "digits 90 = ''90''"
  by (simp add: digits.simps[of 90] digits.simps[of 9] digit_char_def)

lemma track_in_range_examples: "track_in_range sun" "track_in_range moon"
  by (simp_all add: track_in_range_def FEATURE_KEYS_def in_unit_def sun_def moon_def
      no_features_def)

lemma sliders_in_range_none: "sliders_in_range no_sliders"
  by (simp add: sliders_in_range_def in_unit_def no_sliders_def)

theorem scores_in_unit_interval_witness:
  "track_in_range sun \<and> track_in_range moon \<and> sliders_in_range no_sliders
   \<and> scoreTrack (text_only '' Aria '') sun \<in> set (search [sun, moon] (text_only '' Aria '') 5)
   \<and> score (scoreTrack (text_only '' Aria '') sun) = 9 / 10
   \<and> buildExplanation (scoreTrack (text_only '' Aria '') sun) (text_only '' Aria '')
       = ''Match confidence: 90%. Found '' @ dquote @ ''Aria'' @ dquote
         @ '' among the artists.''"
proof -
  let ?p = "text_only '' Aria ''"
  have lib: "\<forall>t\<in>set [sun, moon]. track_in_range t"
    using track_in_range_examples by simp
  have sl: "\<forall>s. sliders ?p = Some s \<longrightarrow> sliders_in_range s"
    using sliders_in_range_none by (simp add: text_only_def)
  have mem: "scoreTrack ?p sun \<in> set (search [sun, moon] ?p 5)"
    by (simp add: search_sun_moon_aria)
  have q: "trim (get_query ?p) = ''Aria''"
    by (simp add: get_query_def text_only_def trim_def isspace_def)
  have sp: "sliders ?p = Some no_sliders" by (simp add: text_only_def)
  have ts: "textScoreOf ?p sun = 9 / 10"
    using hasQuery_aria spec_text_score_sun_aria
    by (simp add: textScoreOf_spec get_query_def text_only_def)
  have rs: "reasons (scoreTrack ?p sun)
            = [''Found '' @ dquote @ ''Aria'' @ dquote @ '' among the artists'']"
    using hasQuery_aria hasSliders_text_only[of "'' Aria ''"]
    by (simp add: reasons_scoreTrack sp ts q buildTextReason_sun_aria)
  from scores_in_unit_interval[OF lib sl, of 5] mem
  have "buildExplanation (scoreTrack ?p sun) ?p
        = ''Match confidence: '' @ digits (nat (round (score (scoreTrack ?p sun) * 100))) @ ''%. ''
          @ join ''. '' (reasons (scoreTrack ?p sun)) @ ''.''"
    by blast
  then have "buildExplanation (scoreTrack ?p sun) ?p
       = ''Match confidence: 90%. Found '' @ dquote @ ''Aria'' @ dquote
         @ '' among the artists.''"
    by (simp add: scores_aria rs digits_90)
  with mem show ?thesis
    using track_in_range_examples sliders_in_range_none scores_aria by simp
qed

text \<open>Claim C4 as stated fails: the track's features are in range, but a danceability
  slider of 5 puts the target farther than \<open>sqrt 5\<close> away and the score is negative.\<close>

theorem scores_in_unit_interval_counterexample:
  "track_in_range moon
   \<and> hasSliders (sliders_only wild_slider)
   \<and> search [moon] (sliders_only wild_slider) 5 = [scoreTrack (sliders_only wild_slider) moon]
   \<and> score (scoreTrack (sliders_only wild_slider) moon) = 1 - (24 / 5) / sqrt 5
   \<and> score (scoreTrack (sliders_only wild_slider) moon) < 0"
proof -
  let ?p = "sliders_only wild_slider"
  have hs: "hasSliders ?p"
    by (simp add: hasSliders_def sliders_only_def wild_slider_def SLIDER_KEYS_def)
  have sl: "sliders ?p = Some wild_slider" by (simp add: sliders_only_def)
  have "spec_distance moon wild_slider = sqrt ((24 / 5)\<^sup>2)"
    by (simp add: spec_distance_def spec_track_value_def spec_target_def moon_def
        wild_slider_def no_sliders_def no_features_def power2_eq_square)
  then have d: "spec_distance moon wild_slider = 24 / 5" by simp
  have sc: "score (scoreTrack ?p moon) = 1 - (24 / 5) / sqrt 5"
    using hs hasQuery_sliders_only[of wild_slider]
    by (simp add: score_scoreTrack featureScoreOf_spec[OF hs sl] spec_feature_score_def d)
  have "sqrt 5 < 24 / 5" by (rule real_less_lsqrt) (simp_all add: power2_eq_square)
  then have neg: "1 - (24 / 5) / sqrt 5 < 0" by (simp add: less_divide_eq)
  have "search [moon] ?p 5 = [scoreTrack ?p moon]"
    using hs hasQuery_sliders_only[of wild_slider]
    by (simp add: search_sorted_filtered slice0_def)
  with hs sc neg show ?thesis using track_in_range_examples by simp
qed

section \<open>Properties of the ranking engine: what the reasons say\<close>

lemma hd_insort_key:
  "ys \<noteq> [] \<Longrightarrow> hd (insort_key f x ys) = (if f x \<le> f (hd ys) then x else hd ys)"
  by (cases ys) auto

lemma sort_key_nonempty: "xs \<noteq> [] \<Longrightarrow> sort_key f xs \<noteq> []"
  by (cases xs) (auto simp: insort_is_Cons dest: arg_cong[where f = length])

text \<open>The head of a stable sort is the first of the least elements.\<close>

lemma hd_sort_key_first_least:
  "xs \<noteq> [] \<Longrightarrow>
   \<exists>pre post. xs = pre @ hd (sort_key f xs) # post
     \<and> (\<forall>d\<in>set pre. f (hd (sort_key f xs)) < f d)
     \<and> (\<forall>d\<in>set post. f (hd (sort_key f xs)) \<le> f d)"
proof (induction xs)
  case Nil
  then show ?case by simp
next
  case (Cons x xs)
  show ?case
  proof (cases "xs = []")
    case True
    then show ?thesis by (intro exI[of _ "[]"]) simp
  next
    case False
    let ?m = "hd (sort_key f xs)"
    from Cons.IH[OF False] obtain pre post where
      xs: "xs = pre @ ?m # post" and pre: "\<forall>d\<in>set pre. f ?m < f d"
      and post: "\<forall>d\<in>set post. f ?m \<le> f d"
      by blast
    have least: "\<forall>d\<in>set xs. f ?m \<le> f d"
    proof
      fix d assume "d \<in> set xs"
      then have "d \<in> set pre \<or> d = ?m \<or> d \<in> set post" by (subst (asm) xs) auto
      with pre post show "f ?m \<le> f d" by fastforce
    qed
    have hd: "hd (sort_key f (x # xs)) = (if f x \<le> f ?m then x else ?m)"
      using sort_key_nonempty[OF False, of f] by (simp add: hd_insort_key)
    show ?thesis
    proof (cases "f x \<le> f ?m")
      case True
      with hd have h: "hd (sort_key f (x # xs)) = x" by simp
      have "x # xs = [] @ x # xs \<and> (\<forall>d\<in>set []. f x < f d) \<and> (\<forall>d\<in>set xs. f x \<le> f d)"
        using True least by fastforce
      then show ?thesis unfolding h by blast
    next
      case False
      with hd have h: "hd (sort_key f (x # xs)) = ?m" by simp
      have "x # xs = (x # pre) @ ?m # post" using xs by simp
      moreover have "\<forall>d\<in>set (x # pre). f ?m < f d" using False pre by simp
      ultimately show ?thesis unfolding h using post by blast
    qed
  qed
qed

lemma length_sorted_diffs:
  "length (sort_by (\<lambda>a b. diff a - diff b) (feature_diffs t ns)) = 5"
  by (simp add: sort_by_sort_key feature_diffs_def FEATURE_KEYS_def)

lemma best_diff_first_least:
  "\<exists>pre kb post. FEATURE_KEYS = pre @ kb # post
     \<and> key (best_diff t (normalizeSliders s)) = kb
     \<and> trackVal (best_diff t (normalizeSliders s)) = spec_track_value t kb
     \<and> (\<forall>k\<in>set pre. gap t s kb < gap t s k)
     \<and> (\<forall>k\<in>set post. gap t s kb \<le> gap t s k)"
proof -
  let ?ns = "normalizeSliders s"
  let ?mk = "\<lambda>k. \<lparr>key = k, diff = \<bar>or_default (num t k) 0 - or_default (?ns k) 0\<bar>,
                   trackVal = or_default (num t k) 0, targetVal = or_default (?ns k) 0\<rparr>"
  have fd: "feature_diffs t ?ns = map ?mk FEATURE_KEYS" by (simp add: feature_diffs_def)
  have g: "diff (?mk k) = gap t s k" if "k \<in> set FEATURE_KEYS" for k
    using that
    by (auto simp: FEATURE_KEYS_def gap_def spec_track_value_def or_default_zero[of "num t _"]
        target_tempoNorm target_other)
  have ne: "feature_diffs t ?ns \<noteq> []" by (simp add: fd FEATURE_KEYS_def)
  have b: "best_diff t ?ns = hd (sort_key diff (feature_diffs t ?ns))"
    by (simp add: best_diff_def sort_by_sort_key)
  have "\<exists>pre post. feature_diffs t ?ns = pre @ best_diff t ?ns # post
           \<and> (\<forall>d\<in>set pre. diff (best_diff t ?ns) < diff d)
           \<and> (\<forall>d\<in>set post. diff (best_diff t ?ns) \<le> diff d)"
    using hd_sort_key_first_least[OF ne, of diff] by (simp only: b)
  then obtain pre post where
    split0: "feature_diffs t ?ns = pre @ best_diff t ?ns # post"
    and pre: "\<forall>d\<in>set pre. diff (best_diff t ?ns) < diff d"
    and post: "\<forall>d\<in>set post. diff (best_diff t ?ns) \<le> diff d"
    by blast
  from split0 have split: "map ?mk FEATURE_KEYS = pre @ best_diff t ?ns # post"
    by (simp only: fd)
  from split obtain kpre kb kpost where
    keys: "FEATURE_KEYS = kpre @ kb # kpost" and kp: "pre = map ?mk kpre"
    and kb: "best_diff t ?ns = ?mk kb" and kq: "post = map ?mk kpost"
    by (auto simp: map_eq_append_conv map_eq_Cons_conv)
  have in_keys: "kb \<in> set FEATURE_KEYS" "set kpre \<subseteq> set FEATURE_KEYS"
    "set kpost \<subseteq> set FEATURE_KEYS"
    by (auto simp: keys)
  have "\<forall>k\<in>set kpre. gap t s kb < gap t s k"
  proof
    fix k assume k: "k \<in> set kpre"
    then have "diff (best_diff t ?ns) < diff (?mk k)" using pre kp by simp
    then show "gap t s kb < gap t s k"
      unfolding kb using g[of kb] g[of k] in_keys k by auto
  qed
  moreover have "\<forall>k\<in>set kpost. gap t s kb \<le> gap t s k"
  proof
    fix k assume k: "k \<in> set kpost"
    then have "diff (best_diff t ?ns) \<le> diff (?mk k)" using post kq by simp
    then show "gap t s kb \<le> gap t s k"
      unfolding kb using g[of kb] g[of k] in_keys k by auto
  qed
  moreover have "key (best_diff t ?ns) = kb" by (simp add: kb)
  moreover have "trackVal (best_diff t ?ns) = spec_track_value t kb"
    by (simp add: kb spec_track_value_def or_default_zero)
  ultimately show ?thesis using keys by blast
qed

lemma buildSliderReason_cites:
  "buildSliderReason t ns raw =
     ''Closest on ''
     @ (if key (best_diff t ns) = tempoNorm
        then ''Tempo ('' @ round_to_string (num t Tempo) @ '' BPM''
        else key_name (key (best_diff t ns)) @ '' (''
             @ toFixed0 (trackVal (best_diff t ns) * 100) @ ''%'')
     @ '') '' @ em_dash @ '' strong alignment with your slider settings''"
  by (simp add: buildSliderReason_def Let_def)

lemma buildTextReason_cases:
  "buildTextReason t q =
     (if name_has t q then name_reason q
      else if artist_has t q then artist_reason q
      else partial_reason q)"
  by (simp add: buildTextReason_def Let_def name_has_def artist_has_def name_reason_def
      artist_reason_def partial_reason_def)

text \<open>
  Claim C5, as the code has it.  For a track with a positive text score, the text reason is
  the first reason: it names the track name when the name contains the trimmed query
  (checked first), else the artists when the artist field contains it, and is otherwise the
  general sentence "Partial match", which names neither.  With active sliders, the slider
  reason is the last reason: it cites the first dimension, in the order danceability,
  energy, valence, tempoNorm, acousticness, whose absolute difference between the track's
  value and the normalised target is least, showing the tempo in BPM and any other
  dimension as a percentage.
\<close>

theorem reasons_cite_match_and_closest_dimension:
  "(hasQuery p \<and> 0 < textScoreOf p t \<longrightarrow>
      hd (reasons (scoreTrack p t)) = buildTextReason t (trim (get_query p))
      \<and> buildTextReason t (trim (get_query p))
          = (if name_has t (trim (get_query p)) then name_reason (trim (get_query p))
             else if artist_has t (trim (get_query p)) then artist_reason (trim (get_query p))
             else partial_reason (trim (get_query p))))
   \<and> (hasSliders p \<and> sliders p = Some s \<longrightarrow>
      last (reasons (scoreTrack p t)) = buildSliderReason t (normalizeSliders s) s
      \<and> (\<exists>pre kb post. FEATURE_KEYS = pre @ kb # post
            \<and> (\<forall>k\<in>set pre. gap t s kb < gap t s k)
            \<and> (\<forall>k\<in>set post. gap t s kb \<le> gap t s k)
            \<and> buildSliderReason t (normalizeSliders s) s = slider_reason t kb))"
proof (intro conjI impI)
  assume "hasQuery p \<and> 0 < textScoreOf p t"
  then show "hd (reasons (scoreTrack p t)) = buildTextReason t (trim (get_query p))"
    by (simp add: reasons_scoreTrack)
next
  show "buildTextReason t (trim (get_query p))
          = (if name_has t (trim (get_query p)) then name_reason (trim (get_query p))
             else if artist_has t (trim (get_query p)) then artist_reason (trim (get_query p))
             else partial_reason (trim (get_query p)))"
    by (rule buildTextReason_cases)
next
  assume "hasSliders p \<and> sliders p = Some s"
  then show "last (reasons (scoreTrack p t)) = buildSliderReason t (normalizeSliders s) s"
    by (simp add: reasons_scoreTrack)
next
  from best_diff_first_least[of t s] obtain pre kb post where
    keys: "FEATURE_KEYS = pre @ kb # post"
    and kb: "key (best_diff t (normalizeSliders s)) = kb"
    and tv: "trackVal (best_diff t (normalizeSliders s)) = spec_track_value t kb"
    and pre: "\<forall>k\<in>set pre. gap t s kb < gap t s k"
    and post: "\<forall>k\<in>set post. gap t s kb \<le> gap t s k"
    by blast
  have "buildSliderReason t (normalizeSliders s) s = slider_reason t kb"
    by (simp add: buildSliderReason_cites kb tv slider_reason_def)
  with keys pre post
  show "\<exists>pre kb post. FEATURE_KEYS = pre @ kb # post
            \<and> (\<forall>k\<in>set pre. gap t s kb < gap t s k)
            \<and> (\<forall>k\<in>set post. gap t s kb \<le> gap t s k)
            \<and> buildSliderReason t (normalizeSliders s) s = slider_reason t kb"
    by blast
qed

lemma hasQuery_sun: "hasQuery sun_and_dance" "trim (get_query sun_and_dance) = ''sun''"
  by (simp_all add: hasQuery_def get_query_def sun_and_dance_def trim_def isspace_def)

lemma hasSliders_sun_and_dance:
  "hasSliders sun_and_dance" "sliders sun_and_dance = Some dance_slider"
  by (simp_all add: hasSliders_def sun_and_dance_def dance_slider_def SLIDER_KEYS_def)

lemma spec_text_score_sun_sun: "spec_text_score sun ''sun'' = 1"
  by (simp add: spec_text_score_def spec_name_bonus_def spec_artist_bonus_def
      spec_album_bonus_def spec_word_bonus_def spec_words_def sun_def trim_def isspace_def
      toLowerCase_def lower_char_def)

lemma gap_sun_dance: "k \<in> set FEATURE_KEYS \<Longrightarrow> gap sun dance_slider k = 0"
  using sun_on_target by (simp add: gap_def)

lemma digits_80: "digits 80 = ''80''"
  by (simp add: digits.simps[of 80] digits.simps[of 8] digit_char_def)

lemma slider_reason_sun:
  "slider_reason sun Danceability
   = ''Closest on Danceability (80%) '' @ em_dash @ '' strong alignment with your slider settings''"
proof -
  have "\<lfloor>(161::real) / 2\<rfloor> = 80" by linarith
  then show ?thesis
    by (simp add: slider_reason_def spec_track_value_def sun_def toFixed0_def digits_80)
qed

theorem reasons_cite_match_and_closest_dimension_witness:
  "hasQuery sun_and_dance \<and> 0 < textScoreOf sun_and_dance sun
   \<and> hasSliders sun_and_dance \<and> sliders sun_and_dance = Some dance_slider
   \<and> name_has sun ''sun''
   \<and> reasons (scoreTrack sun_and_dance sun)
       = [''Matched your search '' @ dquote @ ''sun'' @ dquote @ '' in the track name'',
          ''Closest on Danceability (80%) '' @ em_dash
          @ '' strong alignment with your slider settings'']"
proof -
  let ?p = "sun_and_dance"
  have ts: "textScoreOf ?p sun = 1"
    using hasQuery_sun spec_text_score_sun_sun
    by (simp add: textScoreOf_spec get_query_def sun_and_dance_def)
  have nh: "name_has sun ''sun''"
    by (simp add: name_has_def sun_def toLowerCase_def lower_char_def)
  note inst = reasons_cite_match_and_closest_dimension[of ?p sun dance_slider]
  from inst hasQuery_sun ts nh
  have first: "hd (reasons (scoreTrack ?p sun)) = name_reason ''sun''" by simp
  from inst hasSliders_sun_and_dance obtain pre kb post where
    l: "last (reasons (scoreTrack ?p sun)) = slider_reason sun kb"
    and keys: "FEATURE_KEYS = pre @ kb # post"
    and pre: "\<forall>k\<in>set pre. gap sun dance_slider kb < gap sun dance_slider k"
    by auto
  have "pre = []"
  proof (rule ccontr)
    assume "pre \<noteq> []"
    then obtain k where k: "k \<in> set pre" by (cases pre) auto
    have "k \<in> set FEATURE_KEYS" "kb \<in> set FEATURE_KEYS"
      unfolding keys using k by simp_all
    then have "gap sun dance_slider k = 0" "gap sun dance_slider kb = 0"
      using gap_sun_dance by blast+
    with pre k show False by fastforce
  qed
  with keys have "kb = Danceability" by (simp add: FEATURE_KEYS_def)
  with l have last: "last (reasons (scoreTrack ?p sun)) = slider_reason sun Danceability"
    by simp
  have "length (reasons (scoreTrack ?p sun)) = 2"
    using hasQuery_sun hasSliders_sun_and_dance ts by (simp add: reasons_scoreTrack)
  then obtain a b where ab: "reasons (scoreTrack ?p sun) = [a, b]"
    by (auto simp: length_Suc_conv numeral_2_eq_2)
  with first last have "reasons (scoreTrack ?p sun)
                        = [name_reason ''sun'', slider_reason sun Danceability]"
    by simp
  then show ?thesis
    using hasQuery_sun hasSliders_sun_and_dance ts nh
    by (simp add: name_reason_def slider_reason_sun)
qed

lemma spec_text_score_dawn:
  "spec_text_score sun ''dawn'' = 1 / 5" "spec_text_score moon ''dawn'' = 0"
  by (simp_all add: spec_text_score_def spec_name_bonus_def spec_artist_bonus_def
      spec_album_bonus_def spec_word_bonus_def spec_words_def sun_def moon_def trim_def
      isspace_def toLowerCase_def lower_char_def)

text \<open>Claim C5 as stated fails: the query "dawn" matches only the album of the track, the
  text score is 0.2, the result is returned, and its text reason names neither the track
  name nor the artists.\<close>

theorem text_reason_counterexample:
  "hasQuery (text_only ''dawn'')
   \<and> textScoreOf (text_only ''dawn'') sun = 1 / 5
   \<and> search [sun, moon] (text_only ''dawn'') 5 = [scoreTrack (text_only ''dawn'') sun]
   \<and> reasons (scoreTrack (text_only ''dawn'') sun)
       = [''Partial match for '' @ dquote @ ''dawn'' @ dquote]
   \<and> ''Partial match for '' @ dquote @ ''dawn'' @ dquote \<noteq> name_reason ''dawn''
   \<and> ''Partial match for '' @ dquote @ ''dawn'' @ dquote \<noteq> artist_reason ''dawn''"
proof -
  let ?p = "text_only ''dawn''"
  have hq: "hasQuery ?p" and q: "get_query ?p = ''dawn''" and tq: "trim (get_query ?p) = ''dawn''"
    by (simp_all add: hasQuery_def get_query_def text_only_def trim_def isspace_def)
  have ts: "textScoreOf ?p sun = 1 / 5" "textScoreOf ?p moon = 0"
    using hq spec_text_score_dawn by (simp_all add: textScoreOf_spec q)
  have sc: "score (scoreTrack ?p sun) = 1 / 5" "score (scoreTrack ?p moon) = 0"
    using hq hasSliders_text_only[of "''dawn''"] ts by (simp_all add: score_scoreTrack)
  have srch: "search [sun, moon] ?p 5 = [scoreTrack ?p sun]"
    using hq sc by (simp add: search_sorted_filtered slice0_def)
  have sp: "sliders ?p = Some no_sliders" by (simp add: text_only_def)
  have "buildTextReason sun ''dawn'' = ''Partial match for '' @ dquote @ ''dawn'' @ dquote"
    by (simp add: buildTextReason_def sun_def toLowerCase_def lower_char_def)
  then have rs: "reasons (scoreTrack ?p sun) = [''Partial match for '' @ dquote @ ''dawn'' @ dquote]"
    using hq hasSliders_text_only[of "''dawn''"] ts
    by (simp add: reasons_scoreTrack sp tq)
  show ?thesis
    using hq ts srch rs by (simp add: name_reason_def artist_reason_def)
qed

section \<open>Properties of the visualizer: the features\<close>

lemma lerp_fold:
  "fold (\<lambda>key f. f(key := f key + (tf key - f key) * r)) VKEYS f
   = (\<lambda>k. f k + (tf k - f k) * r)"
proof
  fix k show "fold (\<lambda>key f. f(key := f key + (tf key - f key) * r)) VKEYS f k
              = f k + (tf k - f k) * r"
    by (cases k) (simp_all add: VKEYS_def)
qed

lemma features_lerpFeatures:
  "features (lerpFeatures v) =
     (case (targetFeatures v, features v) of
        (Some tf, Some f) \<Rightarrow> Some (\<lambda>k. f k + (tf k - f k) * 0.03)
      | _ \<Rightarrow> features v)"
  by (simp add: lerpFeatures_def lerp_fold split: option.splits)

lemma lerpFeatures_other:
  "targetFeatures (lerpFeatures v) = targetFeatures v" "animId (lerpFeatures v) = animId v"
  "particles (lerpFeatures v) = particles v" "canvas (lerpFeatures v) = canvas v"
  "time (lerpFeatures v) = time v" "width (lerpFeatures v) = width v"
  "height (lerpFeatures v) = height v" "randoms (lerpFeatures v) = randoms v"
  "drawn (lerpFeatures v) = drawn v"
  by (simp_all add: lerpFeatures_def split: option.splits)

lemma draw_frame_other:
  "features (draw_frame v f) = features v" "targetFeatures (draw_frame v f) = targetFeatures v"
  "animId (draw_frame v f) = animId v" "time (draw_frame v f) = time v"
  "randoms (draw_frame v f) = randoms v" "width (draw_frame v f) = width v"
  "height (draw_frame v f) = height v"
  by (simp_all add: draw_frame_def Let_def split_def)

lemma features_animate:
  "features (animate v) =
     (case (targetFeatures v, features v) of
        (Some tf, Some f) \<Rightarrow> Some (\<lambda>k. f k + (tf k - f k) * 0.03)
      | _ \<Rightarrow> features v)"
  by (simp add: animate_def Let_def features_lerpFeatures draw_frame_other
      split: option.splits)

lemma animate_target: "targetFeatures (animate v) = targetFeatures v"
  by (simp add: animate_def Let_def lerpFeatures_other draw_frame_other split: option.splits)

lemma animate_animId: "animId (animate v) = Some (Suc (frames v))"
  by (simp add: animate_def Let_def lerpFeatures_other draw_frame_other split: option.splits)

lemma initParticles_other:
  "features (initParticles v) = features v" "targetFeatures (initParticles v) = targetFeatures v"
  "animId (initParticles v) = animId v" "canvas (initParticles v) = canvas v"
  "time (initParticles v) = time v" "width (initParticles v) = width v"
  "height (initParticles v) = height v" "randoms (initParticles v) = randoms v"
  by (simp_all add: initParticles_def Let_def split: option.splits)

lemma setTrack_target: "targetFeatures (setTrack v t) = Some (track_features t)"
  by (simp add: setTrack_def Let_def initParticles_other animate_target)

lemma setTrack_animId: "animId (setTrack v t) \<noteq> None"
  by (simp add: setTrack_def Let_def animate_animId)

lemma setTrack_seeds:
  "features v = None \<Longrightarrow> features (setTrack v t) = Some (track_features t)"
  by (simp add: setTrack_def Let_def initParticles_other features_animate)

lemma setTrack_keeps:
  "features v = Some f \<Longrightarrow> animId v \<noteq> None \<Longrightarrow> features (setTrack v t) = Some f"
  by (auto simp: setTrack_def Let_def initParticles_other)

lemma tick_step:
  "features v = Some f \<Longrightarrow> targetFeatures v = Some tf \<Longrightarrow> animId v \<noteq> None \<Longrightarrow>
   features (tick v) = Some (\<lambda>k. f k + (tf k - f k) * 0.03)
   \<and> targetFeatures (tick v) = Some tf \<and> animId (tick v) \<noteq> None"
  by (auto simp: tick_def features_animate animate_target animate_animId)

lemma tick_iterated:
  assumes "features v = Some f" "targetFeatures v = Some tf" "animId v \<noteq> None"
  shows "features ((tick ^^ n) v) = Some (\<lambda>k. tf k + (f k - tf k) * 0.97 ^ n)
         \<and> targetFeatures ((tick ^^ n) v) = Some tf \<and> animId ((tick ^^ n) v) \<noteq> None"
proof (induction n)
  case 0
  then show ?case using assms by simp
next
  case (Suc n)
  let ?g = "\<lambda>k. tf k + (f k - tf k) * 0.97 ^ n"
  from Suc have "features (tick ((tick ^^ n) v)) = Some (\<lambda>k. ?g k + (tf k - ?g k) * 0.03)
         \<and> targetFeatures (tick ((tick ^^ n) v)) = Some tf
         \<and> animId (tick ((tick ^^ n) v)) \<noteq> None"
    by (intro tick_step) simp_all
  moreover have "(\<lambda>k. ?g k + (tf k - ?g k) * 0.03) = (\<lambda>k. tf k + (f k - tf k) * 0.97 ^ Suc n)"
    by (rule ext) (simp add: field_simps)
  ultimately show ?case by simp
qed

lemma strictly_between:
  fixes a b :: real
  assumes "a \<noteq> b"
  shows "min a b < a + (b - a) * 0.03 \<and> a + (b - a) * 0.03 < max a b"
proof (cases "a < b")
  case True
  then show ?thesis by (simp add: min_def max_def field_simps)
next
  case False
  with assms have "b < a" by simp
  then show ?thesis by (simp add: min_def max_def field_simps)
qed

lemma all_keys: "k \<in> set VKEYS"
  by (cases k) (simp_all add: VKEYS_def)

lemma decay_below:
  fixes d :: real
  assumes "0 < eps" "0 \<le> d"
  shows "\<exists>N. \<forall>n\<ge>N. d * 0.97 ^ n < eps"
proof -
  have "0 < eps / (d + 1)" using assms by simp
  then obtain N where N: "(0.97::real) ^ N < eps / (d + 1)"
    using real_arch_pow_inv[of "eps / (d + 1)" "0.97"] by auto
  have "d * 0.97 ^ n < eps" if "N \<le> n" for n
  proof -
    have "(0.97::real) ^ n \<le> 0.97 ^ N" using that by (intro power_decreasing) simp_all
    with N have "(0.97::real) ^ n < eps / (d + 1)" by (rule order.strict_trans1[rotated])
    then have "(d + 1) * 0.97 ^ n < eps" using assms by (simp add: less_divide_eq mult.commute)
    moreover have "d * 0.97 ^ n \<le> (d + 1) * 0.97 ^ n" by (intro mult_right_mono) simp_all
    ultimately show ?thesis by (rule order.strict_trans1[rotated])
  qed
  then show ?thesis by blast
qed

lemma after_two_tracks_state:
  "features (after_two_tracks w h rnd a b) = Some (track_features a)"
  "targetFeatures (after_two_tracks w h rnd a b) = Some (track_features b)"
  "animId (after_two_tracks w h rnd a b) \<noteq> None"
proof -
  let ?v1 = "setTrack (new_visualizer w h rnd) a"
  have "features (new_visualizer w h rnd) = None" by (simp add: new_visualizer_def)
  then have f1: "features ?v1 = Some (track_features a)" by (rule setTrack_seeds)
  have a1: "animId ?v1 \<noteq> None" by (rule setTrack_animId)
  show "features (after_two_tracks w h rnd a b) = Some (track_features a)"
    unfolding after_two_tracks_def using f1 a1 by (rule setTrack_keeps)
  show "targetFeatures (after_two_tracks w h rnd a b) = Some (track_features b)"
    unfolding after_two_tracks_def by (rule setTrack_target)
  show "animId (after_two_tracks w h rnd a b) \<noteq> None"
    unfolding after_two_tracks_def by (rule setTrack_animId)
qed

lemma converges_to_target:
  assumes "features v = Some f" "targetFeatures v = Some tf" "animId v \<noteq> None" "0 < eps"
  shows "\<exists>N. \<forall>n\<ge>N. \<exists>g. features ((tick ^^ n) v) = Some g \<and> (\<forall>k. \<bar>g k - tf k\<bar> < eps)"
proof -
  let ?d = "sum_list (map (\<lambda>k. \<bar>f k - tf k\<bar>) VKEYS)"
  have d0: "0 \<le> ?d" by (intro sum_list_nonneg) auto
  have dk: "\<bar>f k - tf k\<bar> \<le> ?d" for k
    by (cases k) (simp_all add: VKEYS_def)
  from decay_below[OF assms(4) d0] obtain N where N: "\<forall>n\<ge>N. ?d * 0.97 ^ n < eps" by blast
  have "\<exists>g. features ((tick ^^ n) v) = Some g \<and> (\<forall>k. \<bar>g k - tf k\<bar> < eps)" if "N \<le> n" for n
  proof -
    let ?g = "\<lambda>k. tf k + (f k - tf k) * 0.97 ^ n"
    have g: "features ((tick ^^ n) v) = Some ?g"
      using tick_iterated[OF assms(1-3), of n] by blast
    have "\<bar>?g k - tf k\<bar> < eps" for k
    proof -
      have "\<bar>?g k - tf k\<bar> = \<bar>f k - tf k\<bar> * 0.97 ^ n" by (simp add: abs_mult)
      also have "\<dots> \<le> ?d * 0.97 ^ n" using dk[of k] by (intro mult_right_mono) simp_all
      also have "\<dots> < eps" using N that by blast
      finally show ?thesis .
    qed
    with g show ?thesis by blast
  qed
  then show ?thesis by blast
qed

text \<open>
  Claim C8.  On a new visualizer, \<open>setTrack(a)\<close> seeds the current features with those of
  \<open>a\<close>, the one jump there is.  After \<open>setTrack(b)\<close> at once, the current features are
  still those of \<open>a\<close>; the next tick moves each by exactly 3 percent of its gap to the value
  of \<open>b\<close>, so that a feature in which \<open>a\<close> and \<open>b\<close> differ lies strictly between their
  two values; and with ticks only, the current features come within any \<open>eps\<close> of those of
  \<open>b\<close> from some tick on.  In any running state a tick moves the current features by 3
  percent of the gap to the target, and \<open>setTrack\<close> leaves them as they are.
\<close>

theorem crossfade_between_tracks:
  "features (setTrack (new_visualizer w h rnd) a) = Some (track_features a)
   \<and> features (after_two_tracks w h rnd a b) = Some (track_features a)
   \<and> (\<exists>f1. features (tick (after_two_tracks w h rnd a b)) = Some f1
         \<and> (\<forall>k. f1 k = track_features a k + (track_features b k - track_features a k) * 0.03)
         \<and> (\<forall>k. track_features a k \<noteq> track_features b k \<longrightarrow>
                  min (track_features a k) (track_features b k) < f1 k
                  \<and> f1 k < max (track_features a k) (track_features b k)))
   \<and> (\<forall>eps>0. \<exists>N. \<forall>n\<ge>N. \<exists>g. features ((tick ^^ n) (after_two_tracks w h rnd a b)) = Some g
                              \<and> (\<forall>k. \<bar>g k - track_features b k\<bar> < eps))
   \<and> (\<forall>(v::visualizer) f tf. features v = Some f \<and> targetFeatures v = Some tf \<and> animId v \<noteq> None \<longrightarrow>
          features (tick v) = Some (\<lambda>k. f k + (tf k - f k) * 0.03))
   \<and> (\<forall>(v::visualizer) f t. features v = Some f \<and> animId v \<noteq> None \<longrightarrow> features (setTrack v t) = Some f)"
proof (intro conjI allI impI)
  have "features (new_visualizer w h rnd) = None" by (simp add: new_visualizer_def)
  then show "features (setTrack (new_visualizer w h rnd) a) = Some (track_features a)"
    by (rule setTrack_seeds)
next
  show "features (after_two_tracks w h rnd a b) = Some (track_features a)"
    by (rule after_two_tracks_state)
next
  let ?f1 = "\<lambda>k. track_features a k + (track_features b k - track_features a k) * 0.03"
  have "features (tick (after_two_tracks w h rnd a b)) = Some ?f1"
    using tick_step[OF after_two_tracks_state] by blast
  moreover have "\<forall>k. track_features a k \<noteq> track_features b k \<longrightarrow>
                  min (track_features a k) (track_features b k) < ?f1 k
                  \<and> ?f1 k < max (track_features a k) (track_features b k)"
    using strictly_between by blast
  ultimately show "\<exists>f1. features (tick (after_two_tracks w h rnd a b)) = Some f1
         \<and> (\<forall>k. f1 k = track_features a k + (track_features b k - track_features a k) * 0.03)
         \<and> (\<forall>k. track_features a k \<noteq> track_features b k \<longrightarrow>
                  min (track_features a k) (track_features b k) < f1 k
                  \<and> f1 k < max (track_features a k) (track_features b k))"
    by blast
next
  fix eps :: real assume "0 < eps"
  then show "\<exists>N. \<forall>n\<ge>N. \<exists>g. features ((tick ^^ n) (after_two_tracks w h rnd a b)) = Some g
                              \<and> (\<forall>k. \<bar>g k - track_features b k\<bar> < eps)"
    by (rule converges_to_target[OF after_two_tracks_state])
next
  fix v :: visualizer and f tf
  assume "features v = Some f \<and> targetFeatures v = Some tf \<and> animId v \<noteq> None"
  then show "features (tick v) = Some (\<lambda>k. f k + (tf k - f k) * 0.03)"
    using tick_step by blast
next
  fix v :: visualizer and f t
  assume "features v = Some f \<and> animId v \<noteq> None"
  then show "features (setTrack v t) = Some f" using setTrack_keeps by blast
qed

lemma danceability_examples:
  "track_features sun danceability = 4 / 5" "track_features moon danceability = 1 / 5"
  by (simp_all add: track_features_def sun_def moon_def no_features_def)

theorem crossfade_between_tracks_witness:
  "track_features sun danceability \<noteq> track_features moon danceability
   \<and> (0::real) < 1 / 100
   \<and> (\<exists>f1. features (tick (after_two_tracks 800 600 (\<lambda>n. 1 / 2) sun moon)) = Some f1
         \<and> f1 danceability = 391 / 500
         \<and> 1 / 5 < f1 danceability \<and> f1 danceability < 4 / 5)
   \<and> (\<exists>N. \<forall>n\<ge>N. \<exists>g. features ((tick ^^ n) (after_two_tracks 800 600 (\<lambda>n. 1 / 2) sun moon)) = Some g
                       \<and> \<bar>g danceability - 1 / 5\<bar> < 1 / 100)"
proof -
  note inst = crossfade_between_tracks[of 800 600 "\<lambda>n. 1 / 2" sun moon]
  from inst obtain f1 where
    f1: "features (tick (after_two_tracks 800 600 (\<lambda>n. 1 / 2) sun moon)) = Some f1"
    and eq: "\<forall>k. f1 k = track_features sun k + (track_features moon k - track_features sun k) * 0.03"
    and btw: "\<forall>k. track_features sun k \<noteq> track_features moon k \<longrightarrow>
                  min (track_features sun k) (track_features moon k) < f1 k
                  \<and> f1 k < max (track_features sun k) (track_features moon k)"
    by blast
  from eq have v: "f1 danceability = 391 / 500" by (simp add: danceability_examples)
  from btw have "track_features sun danceability \<noteq> track_features moon danceability \<longrightarrow>
                  min (track_features sun danceability) (track_features moon danceability)
                    < f1 danceability
                  \<and> f1 danceability
                    < max (track_features sun danceability) (track_features moon danceability)"
    by (rule spec)
  then have b: "1 / 5 < f1 danceability \<and> f1 danceability < 4 / 5"
    by (simp add: danceability_examples)
  from inst have "\<forall>eps>0. \<exists>N. \<forall>n\<ge>N. \<exists>g.
        features ((tick ^^ n) (after_two_tracks 800 600 (\<lambda>n. 1 / 2) sun moon)) = Some g
        \<and> (\<forall>k. \<bar>g k - track_features moon k\<bar> < eps)"
    by blast
  then have "(0::real) < 1 / 100 \<longrightarrow> (\<exists>N. \<forall>n\<ge>N. \<exists>g.
        features ((tick ^^ n) (after_two_tracks 800 600 (\<lambda>n. 1 / 2) sun moon)) = Some g
        \<and> (\<forall>k. \<bar>g k - track_features moon k\<bar> < 1 / 100))"
    by (rule spec)
  then have "\<exists>N. \<forall>n\<ge>N. \<exists>g.
        features ((tick ^^ n) (after_two_tracks 800 600 (\<lambda>n. 1 / 2) sun moon)) = Some g
        \<and> (\<forall>k. \<bar>g k - track_features moon k\<bar> < 1 / 100)"
    by simp
  then have c: "\<exists>N. \<forall>n\<ge>N. \<exists>g.
        features ((tick ^^ n) (after_two_tracks 800 600 (\<lambda>n. 1 / 2) sun moon)) = Some g
        \<and> \<bar>g danceability - 1 / 5\<bar> < 1 / 100"
    using danceability_examples(2) by metis
  from f1 v b c show ?thesis by (simp add: danceability_examples)
qed

section \<open>Properties of the visualizer: the particles\<close>

lemma length_create_loop: "length (create_loop v c n) = c"
  by (induction c arbitrary: n) auto

lemma nth_create_loop: "i < c \<Longrightarrow> create_loop v c n ! i = createParticle v (n + 8 * i)"
proof (induction c arbitrary: n i)
  case 0
  then show ?case by simp
next
  case (Suc c)
  then show ?case by (cases i) (auto simp: add.assoc)
qed

lemma createParticle_cong:
  assumes "targetFeatures v' = targetFeatures v" "features v' = features v"
    "randoms v' = randoms v" "width v' = width v" "height v' = height v"
  shows "createParticle v' n = createParticle v n"
  using assms by (simp add: createParticle_def Let_def cong: option.case_cong)

lemma create_loop_cong:
  assumes "targetFeatures v' = targetFeatures v" "features v' = features v"
    "randoms v' = randoms v" "width v' = width v" "height v' = height v"
  shows "create_loop v' c n = create_loop v c n"
  by (induction c arbitrary: n) (auto simp: createParticle_cong[OF assms])

lemma animate_particles_moved:
  "q \<in> set (fst (animate_particles v f n ps)) \<Longrightarrow>
   \<exists>p\<in>set ps. \<exists>m. q = move_particle v f m p"
  by (induction ps arbitrary: n) (auto simp: split_def Let_def)

lemma animate_particles_snd:
  "snd (animate_particles v f n ps)
   = concat (map (draw_particle v f) (fst (animate_particles v f n ps)))"
  by (induction ps arbitrary: n) (auto simp: split_def Let_def)

lemma move_particle_keeps:
  "organic (move_particle v f n p) = organic p" "psize (move_particle v f n p) = psize p"
  "phase (move_particle v f n p) = phase p"
  by (simp_all add: move_particle_def Let_def)

lemma animate_particles_keeps:
  "map organic (fst (animate_particles v f n ps)) = map organic ps"
  "map psize (fst (animate_particles v f n ps)) = map psize ps"
  by (induction ps arbitrary: n) (auto simp: split_def Let_def move_particle_keeps)

lemma particles_draw_frame:
  "particles (draw_frame v f) = fst (animate_particles v f (drawn v) (particles v))"
  by (simp add: draw_frame_def Let_def split_def)

lemma particles_animate:
  "map organic (particles (animate v)) = map organic (particles v)"
  "map psize (particles (animate v)) = map psize (particles v)"
  by (auto simp: animate_def Let_def lerpFeatures_other particles_draw_frame
      animate_particles_keeps split: option.splits)

lemma particles_tick:
  "map organic (particles (tick v)) = map organic (particles v)"
  "map psize (particles (tick v)) = map psize (particles v)"
  by (simp_all add: tick_def particles_animate)


lemma or_real_zero: "or_real x 0 = x"
  by (simp add: or_real_def)

lemma particles_initParticles:
  "targetFeatures v = Some tf \<Longrightarrow>
   particles (initParticles v) = create_loop v (nat \<lfloor>80 + tf danceability * 180\<rfloor>) (drawn v)"
  by (simp add: initParticles_def Let_def or_real_zero)

lemma setTrack_cases:
  "setTrack v t =
     (let v2 = v\<lparr>targetFeatures := Some (track_features t),
                 features := (if features v = None then Some (track_features t) else features v)\<rparr>;
          v3 = initParticles v2
      in if animId v = None then animate v3 else v3)"
proof (cases "features v")
  case None
  then show ?thesis by (simp add: setTrack_def Let_def initParticles_other)
next
  case (Some f)
  then have eq: "v\<lparr>targetFeatures := Some (track_features t), features := Some f\<rparr>
             = v\<lparr>targetFeatures := Some (track_features t)\<rparr>"
    by simp
  show ?thesis unfolding setTrack_def Let_def using Some by (simp add: eq initParticles_other)
qed

lemma particles_before_first_frame:
  "particles (initParticles
     (v\<lparr>targetFeatures := Some (track_features t),
        features := (if features v = None then Some (track_features t) else features v)\<rparr>))
   = fresh_particles v t"
  by (simp add: particles_initParticles fresh_particles_def)

lemma setTrack_particles:
  "map organic (particles (setTrack v t)) = map organic (fresh_particles v t)"
  "map psize (particles (setTrack v t)) = map psize (fresh_particles v t)"
proof -
  let ?v3 = "initParticles
     (v\<lparr>targetFeatures := Some (track_features t),
        features := (if features v = None then Some (track_features t) else features v)\<rparr>)"
  have s: "setTrack v t = (if animId v = None then animate ?v3 else ?v3)"
    by (simp only: setTrack_cases Let_def)
  have p: "particles ?v3 = fresh_particles v t" by (rule particles_before_first_frame)
  show "map organic (particles (setTrack v t)) = map organic (fresh_particles v t)"
    unfolding s p[symmetric] by (simp only: particles_animate if_distrib[of particles]
        if_distrib[of "map organic"] if_cancel)
  show "map psize (particles (setTrack v t)) = map psize (fresh_particles v t)"
    unfolding s p[symmetric] by (simp only: particles_animate if_distrib[of particles]
        if_distrib[of "map psize"] if_cancel)
qed

lemma setTrack_particles_running:
  assumes "animId v \<noteq> None"
  shows "particles (setTrack v t) = fresh_particles v t"
proof -
  let ?v3 = "initParticles
     (v\<lparr>targetFeatures := Some (track_features t),
        features := (if features v = None then Some (track_features t) else features v)\<rparr>)"
  have "setTrack v t = (if animId v = None then animate ?v3 else ?v3)"
    by (simp only: setTrack_cases Let_def)
  also have "\<dots> = ?v3" using assms by (rule if_not_P)
  finally show ?thesis by (simp only: particles_before_first_frame)
qed

lemma organic_createParticle:
  "targetFeatures v = Some tf \<Longrightarrow>
   organic (createParticle v n) = (randoms v (n + 7) < (if tf acousticness = 0 then 0.3 else tf acousticness))"
  by (simp add: createParticle_def Let_def or_real_def)

lemma psize_createParticle:
  "targetFeatures v = Some tf \<Longrightarrow>
   psize (createParticle v n)
   = 1.5 + randoms v (n + 4) * 3 * (0.5 + (if tf loudness = 0 then 0.5 else tf loudness))"
  by (simp add: createParticle_def Let_def or_real_def)

lemma length_fresh_particles:
  "length (fresh_particles v t) = nat \<lfloor>80 + track_features t danceability * 180\<rfloor>"
  by (simp add: fresh_particles_def length_create_loop)

lemma organic_fresh_particles:
  assumes "i < length (fresh_particles v t)"
  shows "organic (fresh_particles v t ! i)
         = (randoms v (drawn v + 8 * i + 7)
            < (if track_features t acousticness = 0 then 0.3 else track_features t acousticness))"
proof -
  from assms have "i < nat \<lfloor>80 + track_features t danceability * 180\<rfloor>"
    by (simp add: length_fresh_particles)
  then show ?thesis
    by (simp add: fresh_particles_def nth_create_loop organic_createParticle)
qed

lemma setTrack_forgets_particles: "setTrack (v\<lparr>particles := old\<rparr>) t = setTrack v t"
proof -
  let ?u = "\<lambda>v. v\<lparr>targetFeatures := Some (track_features t),
                   features := (if features v = None then Some (track_features t) else features v)\<rparr>"
  have "create_loop (?u (v\<lparr>particles := old\<rparr>)) c n = create_loop (?u v) c n" for c n
    by (rule create_loop_cong) simp_all
  then have "initParticles (?u (v\<lparr>particles := old\<rparr>)) = initParticles (?u v)"
    by (simp add: initParticles_def Let_def)
  then show ?thesis by (simp add: setTrack_cases Let_def)
qed

lemma draw_shape_cases:
  "draw_shape f tm p sz =
     (if organic p
      then Ellipse (px p) (py p) (sz + sin (tm * 2 + phase p) * sz * 0.2 * f acousticness)
             (sz - sin (tm * 2 + phase p) * sz * 0.2 * f acousticness * 0.5) (phase p)
      else if f instrumentalness > 0.3 then Diamond (px p) (py p) sz (tm * 0.5 + phase p)
      else RoundRect (px p - sz) (py p - sz) (sz * 2) (sz * 2) (sz * 0.3))"
  by (simp add: draw_shape_def Let_def)

text \<open>
  Claim C9, as the code has it.  \<open>setTrack\<close> builds the particle list anew: the list does
  not depend on the particles there were, and it has \<open>floor (80 + danceability * 180)\<close>
  entries for the new target.  The class of the \<open>i\<close>-th particle is decided by its eighth
  random draw: organic exactly when the draw is below the target's acousticness, or below
  0.3 when that acousticness is 0.  A tick never changes the class.  An organic particle is
  drawn as an ellipse; a geometric one as a diamond when the current instrumentalness is
  above 0.3 and as a rounded rectangle otherwise.
\<close>

theorem particle_class_fixed_at_creation:
  "particles (setTrack (v\<lparr>particles := old\<rparr>) t) = particles (setTrack v t)
   \<and> length (particles (setTrack v t)) = nat \<lfloor>80 + track_features t danceability * 180\<rfloor>
   \<and> (\<forall>i<length (particles (setTrack v t)).
         organic (particles (setTrack v t) ! i)
         = (randoms v (drawn v + 8 * i + 7)
            < (if track_features t acousticness = 0 then 0.3 else track_features t acousticness)))
   \<and> map organic (particles (tick (setTrack v t))) = map organic (particles (setTrack v t))
   \<and> (\<forall>(f::feats) tm (p::particle) sz.
         (organic p \<longrightarrow> (\<exists>rx ry. draw_shape f tm p sz = Ellipse (px p) (py p) rx ry (phase p)))
         \<and> (\<not> organic p \<and> f instrumentalness > 0.3 \<longrightarrow>
              draw_shape f tm p sz = Diamond (px p) (py p) sz (tm * 0.5 + phase p))
         \<and> (\<not> organic p \<and> \<not> f instrumentalness > 0.3 \<longrightarrow>
              draw_shape f tm p sz
              = RoundRect (px p - sz) (py p - sz) (sz * 2) (sz * 2) (sz * 0.3)))"
proof (intro conjI allI impI)
  show "particles (setTrack (v\<lparr>particles := old\<rparr>) t) = particles (setTrack v t)"
    by (simp add: setTrack_forgets_particles)
next
  have "length (map organic (particles (setTrack v t))) = length (map organic (fresh_particles v t))"
    by (simp only: setTrack_particles)
  then show "length (particles (setTrack v t)) = nat \<lfloor>80 + track_features t danceability * 180\<rfloor>"
    by (simp add: length_fresh_particles)
next
  fix i assume i: "i < length (particles (setTrack v t))"
  have len: "length (particles (setTrack v t)) = length (fresh_particles v t)"
    using arg_cong[OF setTrack_particles(1)[of v t], of length] by simp
  have "organic (particles (setTrack v t) ! i) = map organic (particles (setTrack v t)) ! i"
    using i by simp
  also have "\<dots> = organic (fresh_particles v t ! i)"
    using i len by (simp add: setTrack_particles(1))
  finally show "organic (particles (setTrack v t) ! i)
         = (randoms v (drawn v + 8 * i + 7)
            < (if track_features t acousticness = 0 then 0.3 else track_features t acousticness))"
    using i len by (simp add: organic_fresh_particles)
next
  show "map organic (particles (tick (setTrack v t))) = map organic (particles (setTrack v t))"
    by (rule particles_tick)
next
  fix f :: feats and tm and p :: particle and sz assume "organic p"
  then show "\<exists>rx ry. draw_shape f tm p sz = Ellipse (px p) (py p) rx ry (phase p)"
    by (simp add: draw_shape_cases)
next
  fix f :: feats and tm and p :: particle and sz assume "\<not> organic p \<and> f instrumentalness > 0.3"
  then show "draw_shape f tm p sz = Diamond (px p) (py p) sz (tm * 0.5 + phase p)"
    by (simp add: draw_shape_cases)
next
  fix f :: feats and tm and p :: particle and sz assume "\<not> organic p \<and> \<not> f instrumentalness > 0.3"
  then show "draw_shape f tm p sz
              = RoundRect (px p - sz) (py p - sz) (sz * 2) (sz * 2) (sz * 0.3)"
    by (simp add: draw_shape_cases)
qed

lemma pulse_features:
  "track_features pulse danceability = 9 / 10" "track_features pulse acousticness = 9 / 10"
  by (simp_all add: track_features_def pulse_def)

lemma moon_features:
  "track_features moon danceability = 1 / 5" "track_features moon acousticness = 0"
  by (simp_all add: track_features_def moon_def no_features_def)

lemma new_visualizer_fields:
  "randoms (new_visualizer w h rnd) = rnd" "drawn (new_visualizer w h rnd) = 0"
  "features (new_visualizer w h rnd) = None" "animId (new_visualizer w h rnd) = None"
  "canvas (new_visualizer w h rnd) = []" "particles (new_visualizer w h rnd) = []"
  by (simp_all add: new_visualizer_def)

theorem particle_class_fixed_at_creation_witness:
  "length (particles (setTrack (new_visualizer 800 600 (\<lambda>n. 1 / 2)) pulse)) = 242
   \<and> organic (particles (setTrack (new_visualizer 800 600 (\<lambda>n. 1 / 2)) pulse) ! 0)
   \<and> (\<exists>rx ry. draw_shape (track_features pulse) 0
                  (particles (setTrack (new_visualizer 800 600 (\<lambda>n. 1 / 2)) pulse) ! 0) 1
                = Ellipse (px (particles (setTrack (new_visualizer 800 600 (\<lambda>n. 1 / 2)) pulse) ! 0))
                    (py (particles (setTrack (new_visualizer 800 600 (\<lambda>n. 1 / 2)) pulse) ! 0))
                    rx ry
                    (phase (particles (setTrack (new_visualizer 800 600 (\<lambda>n. 1 / 2)) pulse) ! 0)))"
proof -
  let ?v = "new_visualizer 800 600 (\<lambda>n. 1 / 2)"
  let ?ps = "particles (setTrack ?v pulse)"
  note inst = particle_class_fixed_at_creation[where v = ?v and old = "[]" and t = pulse]
  have fl: "\<lfloor>(242::real)\<rfloor> = 242" by simp
  from inst have len: "length ?ps = 242"
    by (simp add: pulse_features fl)
  from inst have "\<forall>i<length ?ps. organic (?ps ! i)
         = (randoms ?v (drawn ?v + 8 * i + 7)
            < (if track_features pulse acousticness = 0 then 0.3
               else track_features pulse acousticness))"
    by blast
  with len have org: "organic (?ps ! 0)"
    by (simp add: new_visualizer_fields pulse_features)
  from inst have "organic (?ps ! 0) \<longrightarrow>
      (\<exists>rx ry. draw_shape (track_features pulse) 0 (?ps ! 0) 1
               = Ellipse (px (?ps ! 0)) (py (?ps ! 0)) rx ry (phase (?ps ! 0)))"
    by blast
  with org len show ?thesis by blast
qed

text \<open>Claim C9 as stated fails: the track has acousticness 0 and the draw is 0.1, which is
  not below 0, yet the particle is organic, because the threshold falls back to 0.3.\<close>

theorem organic_threshold_counterexample:
  "track_features moon acousticness = 0
   \<and> length (particles (setTrack (new_visualizer 800 600 (\<lambda>n. 1 / 10)) moon)) = 116
   \<and> organic (particles (setTrack (new_visualizer 800 600 (\<lambda>n. 1 / 10)) moon) ! 0)
   \<and> randoms (new_visualizer 800 600 (\<lambda>n. 1 / 10))
        (drawn (new_visualizer 800 600 (\<lambda>n. 1 / 10)) + 7) = 1 / 10
   \<and> \<not> (1 / 10 < track_features moon acousticness)"
proof -
  let ?v = "new_visualizer 800 600 (\<lambda>n. 1 / 10)"
  let ?ps = "particles (setTrack ?v moon)"
  have fl: "\<lfloor>(116::real)\<rfloor> = 116" by simp
  have lf: "length (fresh_particles ?v moon) = 116"
    by (simp add: length_fresh_particles moon_features fl)
  have len: "length ?ps = 116"
    using arg_cong[OF setTrack_particles(1)[of ?v moon], of length] lf by simp
  have "organic (?ps ! 0) = map organic ?ps ! 0" using len by simp
  also have "\<dots> = organic (fresh_particles ?v moon ! 0)"
    using lf by (simp add: setTrack_particles(1))
  also have "\<dots>" using lf
    by (simp add: organic_fresh_particles moon_features new_visualizer_fields)
  finally have "organic (?ps ! 0)" .
  with len show ?thesis by (simp add: moon_features new_visualizer_fields)
qed

section \<open>Properties of the visualizer: defaults and drawing calls\<close>

lemma track_features_default: "track_features t k = value_or_zero (num t (field_of k))"
  by (cases k) (simp_all add: track_features_def or_default_zero)

lemma feats_in_range_all: "feats_in_range f = (\<forall>k. in_unit (f k))"
  using all_keys by (auto simp: feats_in_range_def list_all_iff)

lemma lerp_in_unit:
  assumes "in_unit a" "in_unit b"
  shows "in_unit (a + (b - a) * 0.03)"
proof -
  have "a + (b - a) * 0.03 = a * 0.97 + b * 0.03" by (simp add: field_simps)
  moreover have "0 \<le> a * 0.97 + b * 0.03"
    using assms by (intro add_nonneg_nonneg mult_nonneg_nonneg) (simp_all add: in_unit_def)
  moreover have "a * 0.97 + b * 0.03 \<le> 1 * 0.97 + 1 * 0.03"
    using assms by (intro add_mono mult_right_mono) (simp_all add: in_unit_def)
  ultimately show ?thesis by (simp add: in_unit_def)
qed

lemma pulse_in_unit: "in_unit (sin x * 0.5 + 0.5)"
proof -
  have "0 \<le> 1 + sin x" using sin_ge_minus_one[of x] by linarith
  then show ?thesis unfolding in_unit_def by (simp add: field_simps)
qed

lemma tick_size_nonneg:
  assumes "feats_in_range f" "0 \<le> psize p"
  shows "0 \<le> tick_size f tm p"
proof -
  from assms(1) have d: "0 \<le> f danceability" by (simp add: feats_in_range_all in_unit_def)
  have "0 \<le> sin (tm * (0.5 + f tempo * 4)) * 0.5 + 0.5"
    using pulse_in_unit by (simp add: in_unit_def)
  then have "0 \<le> (sin (tm * (0.5 + f tempo * 4)) * 0.5 + 0.5) * 0.4 * f danceability"
    using d by (intro mult_nonneg_nonneg) simp_all
  then have "0 \<le> 0.8 + (sin (tm * (0.5 + f tempo * 4)) * 0.5 + 0.5) * 0.4 * f danceability"
    by simp
  with assms(2) show ?thesis unfolding tick_size_def by (rule mult_nonneg_nonneg)
qed

lemma wobble_bounds:
  fixes a s :: real
  assumes "in_unit a" "- 1 \<le> s" "s \<le> 1"
  shows "- 1 \<le> s * a" "s * a \<le> 1"
proof -
  from assms have "\<bar>s * a\<bar> \<le> 1 * 1"
    unfolding abs_mult by (intro mult_mono) (auto simp: in_unit_def)
  then show "- 1 \<le> s * a" "s * a \<le> 1" by auto
qed

lemma draw_shape_valid:
  assumes "feats_in_range f" "0 \<le> sz"
  shows "valid_call (draw_shape f tm p sz)"
proof (cases "organic p")
  case True
  let ?s = "sin (tm * 2 + phase p) * f acousticness"
  from assms(1) have a: "in_unit (f acousticness)" by (simp add: feats_in_range_all)
  have b: "- 1 \<le> ?s" "?s \<le> 1" using wobble_bounds[OF a, of "sin (tm * 2 + phase p)"] by simp_all
  have "sz + sin (tm * 2 + phase p) * sz * 0.2 * f acousticness = sz * (1 + 0.2 * ?s)"
    by (simp add: algebra_simps)
  moreover have "0 \<le> sz * (1 + 0.2 * ?s)" using assms(2) b by (intro mult_nonneg_nonneg) simp_all
  moreover have "sz - sin (tm * 2 + phase p) * sz * 0.2 * f acousticness * 0.5
                 = sz * (1 - 0.1 * ?s)"
    by (simp add: algebra_simps)
  moreover have "0 \<le> sz * (1 - 0.1 * ?s)" using assms(2) b by (intro mult_nonneg_nonneg) simp_all
  ultimately show ?thesis using True by (simp add: draw_shape_cases)
next
  case False
  then show ?thesis using assms(2) by (simp add: draw_shape_cases)
qed

lemma draw_particle_tick_size:
  "draw_particle v f p =
     draw_shape f (time v) p (tick_size f (time v) p)
     # (if f energy > 0.6 then [Arc (px p) (py p) (tick_size f (time v) p * 0.5)] else [])"
  by (simp add: draw_particle_def tick_size_def Let_def)

lemma draw_particle_valid:
  assumes "feats_in_range f" "0 \<le> psize p"
  shows "\<forall>c\<in>set (draw_particle v f p). valid_call c"
  using draw_shape_valid[OF assms(1) tick_size_nonneg[OF assms]] tick_size_nonneg[OF assms]
  by (simp add: draw_particle_tick_size)

lemma connect_valid: "\<forall>c\<in>set (connect d ps). valid_call c"
  by (induction ps) auto

lemma canvas_draw_frame:
  "canvas (draw_frame v f) =
     canvas v @ FillRect 0 0 (width v) (height v)
     # concat (map (draw_particle v f) (particles (draw_frame v f)))
     @ (if f danceability > 0.5
        then connect (60 + f danceability * 40) (every_third (particles (draw_frame v f)))
        else [])"
  by (simp add: draw_frame_def Let_def split_def animate_particles_snd)

lemma psize_draw_frame:
  assumes "\<forall>p\<in>set (particles v). 0 \<le> psize p"
  shows "\<forall>q\<in>set (particles (draw_frame v f)). 0 \<le> psize q"
proof
  fix q assume "q \<in> set (particles (draw_frame v f))"
  then obtain p m where "p \<in> set (particles v)" "q = move_particle v f m p"
    using animate_particles_moved unfolding particles_draw_frame by blast
  with assms show "0 \<le> psize q" by (simp add: move_particle_keeps)
qed

lemma draw_frame_valid:
  assumes "feats_in_range f" "\<forall>p\<in>set (particles v). 0 \<le> psize p"
    "\<forall>c\<in>set (canvas v). valid_call c"
  shows "\<forall>c\<in>set (canvas (draw_frame v f)). valid_call c"
proof -
  note q = psize_draw_frame[OF assms(2), of f]
  have "\<forall>c\<in>set (concat (map (draw_particle v f) (particles (draw_frame v f)))). valid_call c"
    using q draw_particle_valid[OF assms(1)] by auto
  with assms(3) connect_valid show ?thesis
    unfolding canvas_draw_frame by (auto split: if_splits)
qed

lemma in_range_animate:
  assumes "in_range_state v"
  shows "in_range_state (animate v)"
proof -
  let ?v1 = "lerpFeatures (v\<lparr>animId := Some (Suc (frames v)), frames := Suc (frames v),
                            time := time v + 0.016\<rparr>)"
  have a: "animate v = (case features ?v1 of None \<Rightarrow> ?v1 | Some f \<Rightarrow> draw_frame ?v1 f)"
    by (simp add: animate_def Let_def cong: option.case_cong)
  have f: "\<forall>f. features (animate v) = Some f \<longrightarrow> feats_in_range f"
  proof (intro allI impI)
    fix g assume g: "features (animate v) = Some g"
    show "feats_in_range g"
    proof (cases "targetFeatures v")
      case None
      with g assms show ?thesis by (simp add: features_animate in_range_state_def)
    next
      case (Some tf)
      with g obtain f0 where f0: "features v = Some f0"
        by (cases "features v") (simp_all add: features_animate)
      with Some g have geq: "g = (\<lambda>k. f0 k + (tf k - f0 k) * 0.03)"
        by (simp add: features_animate)
      from assms Some f0 have "\<forall>k. in_unit (f0 k)" "\<forall>k. in_unit (tf k)"
        by (simp_all add: in_range_state_def feats_in_range_all)
      then have "\<forall>k. in_unit (f0 k + (tf k - f0 k) * 0.03)"
        by (blast intro: lerp_in_unit)
      then show ?thesis unfolding feats_in_range_all geq .
    qed
  qed
  have t: "\<forall>tf. targetFeatures (animate v) = Some tf \<longrightarrow> feats_in_range tf"
    using assms by (simp add: animate_target in_range_state_def)
  have p: "\<forall>p\<in>set (particles (animate v)). 0 \<le> psize p"
  proof -
    have img: "psize ` set (particles (animate v)) = psize ` set (particles v)"
      using arg_cong[OF particles_animate(2)[of v], of set] by simp
    have old: "\<forall>x\<in>psize ` set (particles v). 0 \<le> x"
      using assms by (simp add: in_range_state_def)
    show ?thesis
    proof
      fix p assume "p \<in> set (particles (animate v))"
      then have "psize p \<in> psize ` set (particles (animate v))" by (rule imageI)
      with old show "0 \<le> psize p" unfolding img by blast
    qed
  qed
  have r: "\<forall>n. 0 \<le> randoms (animate v) n"
    using assms
    by (simp add: animate_def Let_def lerpFeatures_other draw_frame_other in_range_state_def
        split: option.splits)
  have c: "\<forall>c\<in>set (canvas (animate v)). valid_call c"
  proof (cases "features ?v1")
    case None
    with assms show ?thesis by (simp add: a lerpFeatures_other in_range_state_def)
  next
    case (Some f1)
    then have "features (animate v) = Some f1" by (simp add: a draw_frame_other)
    with f have "feats_in_range f1" by simp
    moreover have "\<forall>p\<in>set (particles ?v1). 0 \<le> psize p"
      using assms by (simp add: lerpFeatures_other in_range_state_def)
    moreover have "\<forall>c\<in>set (canvas ?v1). valid_call c"
      using assms by (simp add: lerpFeatures_other in_range_state_def)
    ultimately have "\<forall>c\<in>set (canvas (draw_frame ?v1 f1)). valid_call c"
      by (rule draw_frame_valid)
    with Some show ?thesis by (simp add: a)
  qed
  from f t p r c show ?thesis unfolding in_range_state_def by blast
qed

lemma psize_createParticle_nonneg:
  assumes "targetFeatures v = Some tf" "feats_in_range tf" "\<forall>n. 0 \<le> randoms v n"
  shows "0 \<le> psize (createParticle v n)"
proof -
  from assms(2) have "0 \<le> tf loudness" by (simp add: feats_in_range_all in_unit_def)
  then have "0 \<le> 0.5 + (if tf loudness = 0 then 0.5 else tf loudness)" by simp
  then have "0 \<le> randoms v (n + 4) * 3 * (0.5 + (if tf loudness = 0 then 0.5 else tf loudness))"
    using assms(3) by (intro mult_nonneg_nonneg) simp_all
  then show ?thesis by (simp add: psize_createParticle[OF assms(1)])
qed

lemma create_loop_members:
  "p \<in> set (create_loop v c n) \<Longrightarrow> \<exists>m. p = createParticle v m"
  by (induction c arbitrary: n) auto

lemma in_range_initParticles:
  assumes "in_range_state v" "targetFeatures v = Some tf"
  shows "in_range_state (initParticles v)"
proof -
  from assms have tf: "feats_in_range tf" and r: "\<forall>n. 0 \<le> randoms v n"
    by (simp_all add: in_range_state_def)
  have "\<forall>p\<in>set (particles (initParticles v)). 0 \<le> psize p"
    unfolding particles_initParticles[OF assms(2)]
    using create_loop_members psize_createParticle_nonneg[OF assms(2) tf r] by blast
  with assms(1) show ?thesis
    by (simp add: in_range_state_def initParticles_other)
qed

lemma in_range_setTrack:
  assumes "in_range_state v" "feats_in_range (track_features t)"
  shows "in_range_state (setTrack v t)"
proof -
  let ?v2 = "v\<lparr>targetFeatures := Some (track_features t),
               features := (if features v = None then Some (track_features t) else features v)\<rparr>"
  from assms have "in_range_state ?v2" by (auto simp: in_range_state_def)
  then have "in_range_state (initParticles ?v2)"
    by (rule in_range_initParticles) simp
  then show ?thesis
    by (simp add: setTrack_cases Let_def in_range_animate)
qed

lemma in_range_handle:
  assumes "in_range_state v" "event_in_range e"
  shows "in_range_state (handle v e)"
proof (cases e)
  case (SetTrack t)
  with assms show ?thesis by (simp add: in_range_setTrack)
next
  case Tick
  with assms show ?thesis by (simp add: tick_def in_range_animate)
next
  case Destroy
  with assms show ?thesis by (simp add: destroy_def in_range_state_def)
qed

lemma in_range_run:
  "in_range_state v \<Longrightarrow> list_all event_in_range es \<Longrightarrow> in_range_state (run v es)"
  unfolding run_def
  by (induction es arbitrary: v) (simp_all add: in_range_handle)

lemma in_range_new: "\<forall>n. 0 \<le> rnd n \<Longrightarrow> in_range_state (new_visualizer w h rnd)"
  by (simp add: in_range_state_def new_visualizer_def)

text \<open>
  Claim C7, as the code has it.  \<open>setTrack\<close> turns a feature value that is missing, null
  or NaN into 0 and uses any other number as it is given.  When every track that is set has
  its feature values in \<open>[0, 1]\<close> after that defaulting, and \<open>Math.random\<close> gives
  values in \<open>[0, 1)\<close>, then after any sequence of \<open>setTrack\<close>, tick and teardown the
  current features are in \<open>[0, 1]\<close> and every call made on the drawing surface is valid:
  no ellipse, rounded rectangle or arc has a negative radius.
\<close>

theorem in_range_tracks_draw_validly:
  assumes "\<forall>n. 0 \<le> rnd n \<and> rnd n < 1" and "list_all event_in_range es"
  shows "(\<forall>t k. track_features t k = value_or_zero (num t (field_of k)))
         \<and> (\<forall>v t. targetFeatures (setTrack v t) = Some (track_features t))
         \<and> list_all valid_call (canvas (run (new_visualizer w h rnd) es))
         \<and> (\<forall>f. features (run (new_visualizer w h rnd) es) = Some f \<longrightarrow> feats_in_range f)"
proof -
  from assms(1) have "in_range_state (new_visualizer w h rnd)" by (simp add: in_range_new)
  then have "in_range_state (run (new_visualizer w h rnd) es)"
    using assms(2) by (rule in_range_run)
  then show ?thesis
    by (simp add: in_range_state_def list_all_iff track_features_default setTrack_target)
qed

lemma feats_in_range_examples:
  "feats_in_range (track_features sun)" "feats_in_range (track_features moon)"
  by (simp_all add: feats_in_range_def VKEYS_def in_unit_def track_features_def sun_def
      moon_def no_features_def)

theorem in_range_tracks_draw_validly_witness:
  "(\<forall>n. (0::real) \<le> (\<lambda>n. 1 / 2) n \<and> (\<lambda>n. 1 / 2 :: real) n < 1)
   \<and> list_all event_in_range [SetTrack sun, SetTrack moon, Tick, Destroy]
   \<and> track_features sun valence = 0
   \<and> track_features sun danceability = 4 / 5
   \<and> list_all valid_call
        (canvas (run (new_visualizer 800 600 (\<lambda>n. 1 / 2))
                   [SetTrack sun, SetTrack moon, Tick, Destroy]))"
proof -
  have r: "\<forall>n. (0::real) \<le> (\<lambda>n. 1 / 2) n \<and> (\<lambda>n. 1 / 2 :: real) n < 1" by simp
  have e: "list_all event_in_range [SetTrack sun, SetTrack moon, Tick, Destroy]"
    by (simp add: feats_in_range_examples)
  note inst = in_range_tracks_draw_validly[OF r e, of 800 600]
  from inst have "track_features sun valence = value_or_zero (num sun (field_of valence))"
    by blast
  then have v: "track_features sun valence = 0" by (simp add: sun_def no_features_def)
  from inst have c: "list_all valid_call
        (canvas (run (new_visualizer 800 600 (\<lambda>n. 1 / 2))
                   [SetTrack sun, SetTrack moon, Tick, Destroy]))"
    by blast
  from r e v c show ?thesis by (simp add: danceability_examples)
qed

lemma time_setTrack:
  "time (setTrack v t) = (if animId v = None then time v + 0.016 else time v)"
  by (simp add: setTrack_cases Let_def initParticles_other animate_def lerpFeatures_other
      draw_frame_other split: option.splits)

lemma randoms_setTrack: "randoms (setTrack v t) = randoms v"
  by (simp add: setTrack_cases Let_def initParticles_other animate_def lerpFeatures_other
      draw_frame_other split: option.splits)

lemma tick_running:
  assumes "features v = Some f" "targetFeatures v = Some tf" "animId v \<noteq> None"
  shows "\<exists>v1. time v1 = time v + 0.016 \<and> particles v1 = particles v
              \<and> tick v = draw_frame v1 (\<lambda>k. f k + (tf k - f k) * 0.03)"
proof -
  let ?v1 = "lerpFeatures (v\<lparr>animId := Some (Suc (frames v)), frames := Suc (frames v),
                            time := time v + 0.016\<rparr>)"
  have "features ?v1 = Some (\<lambda>k. f k + (tf k - f k) * 0.03)"
    using assms by (simp add: features_lerpFeatures)
  then have "animate v = draw_frame ?v1 (\<lambda>k. f k + (tf k - f k) * 0.03)"
    by (simp add: animate_def Let_def cong: option.case_cong)
  moreover have "time ?v1 = time v + 0.016" "particles ?v1 = particles v"
    by (simp_all add: lerpFeatures_other)
  ultimately show ?thesis using assms(3) unfolding tick_def by auto
qed

lemma draw_frame_draws:
  assumes "q \<in> set (particles (draw_frame v f))"
  shows "draw_shape f (time v) q (tick_size f (time v) q) \<in> set (canvas (draw_frame v f))"
proof -
  have "draw_shape f (time v) q (tick_size f (time v) q) \<in> set (draw_particle v f q)"
    by (simp add: draw_particle_tick_size)
  with assms show ?thesis unfolding canvas_draw_frame by auto
qed

lemma half_draw_particles:
  assumes "randoms v = (\<lambda>n. 1 / 2)" "p \<in> set (fresh_particles v moon)"
  shows "\<not> organic p \<and> psize p = 3"
proof -
  let ?v' = "v\<lparr>targetFeatures := Some (track_features moon),
              features := (if features v = None then Some (track_features moon)
                           else features v)\<rparr>"
  from assms(2) obtain m where p: "p = createParticle ?v' m"
    unfolding fresh_particles_def using create_loop_members by blast
  have tf: "targetFeatures ?v' = Some (track_features moon)" by simp
  have l: "track_features moon loudness = 0"
    by (simp add: track_features_def moon_def no_features_def)
  show ?thesis
    unfolding p using assms(1)
    by (simp add: organic_createParticle[OF tf] psize_createParticle[OF tf] moon_features l)
qed

lemma sin_small_nonneg: "0 \<le> sin (2 / 125 :: real)"
proof (rule sin_ge_zero)
  show "(0::real) \<le> 2 / 125" by simp
  have "(2 / 125 :: real) \<le> 2" by simp
  also have "\<dots> \<le> pi" by (rule pi_ge_two)
  finally show "(2 / 125 :: real) \<le> pi" .
qed

lemma off_scale_features:
  "track_features off_scale valence = 5" "track_features off_scale danceability = - 10"
  "track_features off_scale tempo = 0" "track_features off_scale instrumentalness = 0"
  by (simp_all add: track_features_def off_scale_def no_features_def)

lemma moon_more_features:
  "track_features moon tempo = 0" "track_features moon instrumentalness = 0"
  by (simp_all add: track_features_def moon_def no_features_def)

lemma negative_size_invalid:
  "sz < 0 \<Longrightarrow> \<not> organic p \<Longrightarrow> \<not> f instrumentalness > 0.3 \<Longrightarrow>
   \<not> valid_call (draw_shape f tm p sz)"
  by (simp add: draw_shape_cases)

text \<open>Claim C7 as stated fails.  A valence of 5 is not defaulted to 0: it becomes the
  target as it is.  And after a track of danceability \<open>- 10\<close>, the next track's particles
  get a negative size at the next tick, so that \<open>roundRect\<close> is called with a negative
  radius.\<close>

theorem out_of_range_counterexample:
  "track_features off_scale valence = 5
   \<and> (\<exists>f. targetFeatures (setTrack (new_visualizer 800 600 (\<lambda>n. 1 / 2)) off_scale) = Some f
          \<and> f valence = 5)
   \<and> (\<exists>c\<in>set (canvas (tick (after_two_tracks 800 600 (\<lambda>n. 1 / 2) off_scale moon))).
         \<not> valid_call c)"
proof -
  let ?new = "new_visualizer 800 600 (\<lambda>n. 1 / 2)"
  let ?v1 = "setTrack ?new off_scale"
  let ?v2 = "after_two_tracks 800 600 (\<lambda>n. 1 / 2) off_scale moon"
  let ?A = "track_features off_scale"
  let ?B = "track_features moon"
  let ?f1 = "\<lambda>k. ?A k + (?B k - ?A k) * 0.03"
  have v2: "?v2 = setTrack ?v1 moon" by (simp add: after_two_tracks_def)
  have run1: "animId ?v1 \<noteq> None" by (rule setTrack_animId)
  have t1: "time ?v1 = 0.016"
    by (simp add: time_setTrack new_visualizer_def)
  have t2: "time ?v2 = 0.016"
    unfolding v2 using run1 t1 by (simp add: time_setTrack)
  have r1: "randoms ?v1 = (\<lambda>n. 1 / 2)"
    by (simp add: randoms_setTrack new_visualizer_fields)
  have ps2: "particles ?v2 = fresh_particles ?v1 moon"
    unfolding v2 using run1 by (rule setTrack_particles_running)
  have fl: "\<lfloor>(116::real)\<rfloor> = 116" by simp
  have len2: "length (particles ?v2) = 116"
    by (simp add: ps2 length_fresh_particles moon_features fl)
  from tick_running[OF after_two_tracks_state, of 800 600 "\<lambda>n. 1 / 2" off_scale moon]
  obtain vL where tL: "time vL = time ?v2 + 0.016" and pL: "particles vL = particles ?v2"
    and tk: "tick ?v2 = draw_frame vL ?f1"
    by blast
  have "length (map organic (particles (tick ?v2))) = length (map organic (particles ?v2))"
    by (simp only: particles_tick)
  with len2 have "particles (tick ?v2) \<noteq> []" by auto
  then obtain q where q: "q \<in> set (particles (tick ?v2))"
    by (cases "particles (tick ?v2)") auto
  then obtain p m where p: "p \<in> set (particles vL)" and qp: "q = move_particle vL ?f1 m p"
    unfolding tk particles_draw_frame using animate_particles_moved by blast
  from p have "\<not> organic p \<and> psize p = 3"
    unfolding pL ps2 using half_draw_particles[OF r1] by blast
  then have qo: "\<not> organic q" and qs: "psize q = 3"
    by (simp_all add: qp move_particle_keeps)
  have tm: "time vL = 4 / 125" using tL t2 by simp
  have d: "?f1 danceability = - 4847 / 500" "?f1 tempo = 0" "?f1 instrumentalness = 0"
    by (simp_all add: off_scale_features moon_features moon_more_features)
  let ?pulse = "sin (2 / 125 :: real) * 0.5 + 0.5"
  have pl: "1 / 2 \<le> ?pulse" using sin_small_nonneg by simp
  have ts: "tick_size ?f1 (time vL) q = 3 * (0.8 + ?pulse * 0.4 * (- 4847 / 500))"
    by (simp add: tick_size_def qs tm off_scale_features moon_features moon_more_features)
  have "?pulse * 0.4 * (- 4847 / 500) \<le> (1 / 2) * 0.4 * (- 4847 / 500)"
    using pl by simp
  then have neg: "tick_size ?f1 (time vL) q < 0"
    unfolding ts by simp
  let ?sz = "tick_size ?f1 (time vL) q"
  have mem: "draw_shape ?f1 (time vL) q ?sz \<in> set (canvas (tick ?v2))"
    using q unfolding tk by (rule draw_frame_draws)
  have "\<not> ?f1 instrumentalness > 0.3"
    by (simp add: off_scale_features moon_more_features)
  with neg qo have inv: "\<not> valid_call (draw_shape ?f1 (time vL) q ?sz)"
    by (rule negative_size_invalid)
  from inv mem have bad: "\<exists>c\<in>set (canvas (tick ?v2)). \<not> valid_call c"
    by (rule bexI)
  have "targetFeatures ?v1 = Some ?A" by (rule setTrack_target)
  with bad show ?thesis by (simp add: off_scale_features)
qed

end
